theory Spec2Isabelle
  imports
    Complex_Main
    "HOL-Library.Char_ord"
    "HOL-Library.List_Lexorder"
    "HOL-Library.Sublist"
    "HOL-Library.AList"
begin

section \<open>Strings as the Go code uses them\<close>

text \<open>
  A Go string is a sequence of bytes; \<^typ>\<open>string\<close> is a list of 8-bit characters.
  The functions of this section are the parts of the package \<^verbatim>\<open>strings\<close> that
  work on the bytes of a string.
\<close>

definition HasPrefix :: "string \<Rightarrow> string \<Rightarrow> bool" where
  "HasPrefix s p = (length p \<le> length s \<and> take (length p) s = p)"

fun Contains :: "string \<Rightarrow> string \<Rightarrow> bool" where
  "Contains [] sub = (sub = [])"
| "Contains (c # cs) sub = (HasPrefix (c # cs) sub \<or> Contains cs sub)"

text \<open>\<^verbatim>\<open>strings.Split(s, sep)\<close> for a separator of one byte: n separators give n + 1 parts.\<close>

fun Split :: "string \<Rightarrow> char \<Rightarrow> string list" where
  "Split [] sep = [[]]"
| "Split (c # cs) sep =
     (if c = sep then [] # Split cs sep
      else (case Split cs sep of [] \<Rightarrow> [[c]] | p # ps \<Rightarrow> (c # p) # ps))"

text \<open>\<^verbatim>\<open>strings.SplitN(s, sep, n)\<close> for \<open>n \<ge> 0\<close>: at most n parts, the last one unsplit.\<close>

fun SplitN :: "string \<Rightarrow> char \<Rightarrow> nat \<Rightarrow> string list" where
  "SplitN s sep 0 = []"
| "SplitN s sep (Suc 0) = [s]"
| "SplitN [] sep (Suc (Suc n)) = [[]]"
| "SplitN (c # cs) sep (Suc (Suc n)) =
     (if c = sep then [] # SplitN cs sep (Suc n)
      else (case SplitN cs sep (Suc (Suc n)) of [] \<Rightarrow> [[c]] | p # ps \<Rightarrow> (c # p) # ps))"

text \<open>\<^verbatim>\<open>strings.LastIndex(s, sep)\<close> for a separator of one byte; -1 when it is absent.\<close>

fun LastIndex :: "string \<Rightarrow> char \<Rightarrow> int" where
  "LastIndex [] sep = -1"
| "LastIndex (c # cs) sep =
     (let r = LastIndex cs sep
      in if 0 \<le> r then r + 1 else if c = sep then 0 else -1)"

definition IsSpace :: "char \<Rightarrow> bool" where
  "IsSpace c = (c = CHR '' '' \<or> c = CHR 0x09 \<or> c = CHR 0x0A \<or> c = CHR 0x0B
                \<or> c = CHR 0x0C \<or> c = CHR 0x0D)"

text \<open>
  \<^verbatim>\<open>strings.TrimSpace\<close>, for the six ASCII white-space bytes. Go's function also
  trims the white space outside ASCII (U+0085, U+00A0 and the Unicode spaces); the model
  of the Javadoc text is the code's for descriptions whose lines do not begin or end with
  such a character. No property below depends on a description.
\<close>

definition TrimSpace :: "string \<Rightarrow> string" where
  "TrimSpace s = rev (dropWhile IsSpace (rev (dropWhile IsSpace s)))"

section \<open>Runes and case mapping\<close>

text \<open>
  The naming helper converts a string to its runes and back (\<^verbatim>\<open>[]rune(s)\<close>,
  \<^verbatim>\<open>string(r)\<close>, \<^verbatim>\<open>range s\<close>) and calls the case mapping of the packages
  \<^verbatim>\<open>unicode\<close> and \<^verbatim>\<open>strings\<close>. The conversions and the Unicode tables belong to
  Go, not to the program: the model takes them as a parameter, a record of six
  functions, and every function of the naming helper that reaches one of them is defined
  for an arbitrary such record. A rune is its code point, an integer as in Go.
\<close>

type_synonym rune = int

record Unicode =
  runes_of :: "string \<Rightarrow> rune list"
  string_of :: "rune list \<Rightarrow> string"
  unicode_ToUpper :: "rune \<Rightarrow> rune"
  unicode_ToLower :: "rune \<Rightarrow> rune"
  unicode_IsUpper :: "rune \<Rightarrow> bool"
  strings_ToLower :: "string \<Rightarrow> string"

text \<open>
  The ASCII instance: every byte is one rune, and only the letters \<^verbatim>\<open>A\<close> to
  \<^verbatim>\<open>Z\<close> and \<^verbatim>\<open>a\<close> to \<^verbatim>\<open>z\<close> have another case. On a string of ASCII bytes
  it is what Go's functions do, and it is the instance the concrete evaluations below
  use.
\<close>

definition ascii_IsUpper :: "rune \<Rightarrow> bool" where
  "ascii_IsUpper r = (65 \<le> r \<and> r \<le> 90)"

definition ascii_ToLower :: "rune \<Rightarrow> rune" where
  "ascii_ToLower r = (if 65 \<le> r \<and> r \<le> 90 then r + 32 else r)"

definition ascii_ToUpper :: "rune \<Rightarrow> rune" where
  "ascii_ToUpper r = (if 97 \<le> r \<and> r \<le> 122 then r - 32 else r)"

definition ascii :: Unicode where
  "ascii =
     \<lparr>runes_of = map of_char,
      string_of = map char_of,
      unicode_ToUpper = ascii_ToUpper,
      unicode_ToLower = ascii_ToLower,
      unicode_IsUpper = ascii_IsUpper,
      strings_ToLower = map (\<lambda>c. char_of (ascii_ToLower (of_char c)))\<rparr>"

section \<open>Naming helper\<close>

text \<open>
  \<^verbatim>\<open>capitalizeFirst\<close>: the empty string is returned as it is. The conversion
  \<^verbatim>\<open>[]rune(s)\<close> of a non-empty string has at least one rune, so \<^verbatim>\<open>r[0]\<close> is in
  range; the first branch of the case is dead.
\<close>

definition capitalizeFirst :: "Unicode \<Rightarrow> string \<Rightarrow> string" where
  "capitalizeFirst U s =
     (if s = [] then s
      else (case runes_of U s of
              [] \<Rightarrow> s
            | r0 # rs \<Rightarrow> string_of U (unicode_ToUpper U r0 # rs)))"

text \<open>
  The loop of \<^verbatim>\<open>toCamelCase\<close> over \<^verbatim>\<open>parts[1:]\<close>: every non-empty part is
  lowercased, capitalised and appended.
\<close>

fun camel_parts :: "Unicode \<Rightarrow> string \<Rightarrow> string list \<Rightarrow> string" where
  "camel_parts U result [] = result"
| "camel_parts U result (p # ps) =
     camel_parts U
       (if p \<noteq> [] then result @ capitalizeFirst U (strings_ToLower U p) else result) ps"

text \<open>
  \<^verbatim>\<open>strings.Split\<close> never returns an empty slice for a non-empty separator, so
  \<^verbatim>\<open>parts[0]\<close> is always in range; the first branch of the first inner case is dead,
  and so is the first branch of the second one (the string is not empty there).
\<close>

definition toCamelCase :: "Unicode \<Rightarrow> string \<Rightarrow> string" where
  "toCamelCase U s =
     (if s = [] then s
      else if Contains s ''_'' then
        (case Split s (CHR ''_'') of
           [] \<Rightarrow> []
         | p0 # ps \<Rightarrow> camel_parts U (strings_ToLower U p0) ps)
      else (case runes_of U s of
              [] \<Rightarrow> s
            | r0 # rs \<Rightarrow> string_of U (unicode_ToLower U r0 # rs)))"

text \<open>
  \<^verbatim>\<open>toSnakeCase\<close>: the range loop visits the runes of the string; its index \<open>i\<close> is
  only compared with 0, so the model carries whether the current rune is the first one.
  The runes written to the builder are returned as a list and converted at the end.
\<close>

fun snake_loop :: "Unicode \<Rightarrow> bool \<Rightarrow> rune list \<Rightarrow> rune list" where
  "snake_loop U first [] = []"
| "snake_loop U first (r # rs) =
     (if unicode_IsUpper U r
      then (if first then [] else [of_char (CHR ''_'')])
           @ unicode_ToLower U r # snake_loop U False rs
      else r # snake_loop U False rs)"

definition toSnakeCase :: "Unicode \<Rightarrow> string \<Rightarrow> string" where
  "toSnakeCase U s = (if s = [] then s else string_of U (snake_loop U True (runes_of U s)))"

definition GetGetterName :: "Unicode \<Rightarrow> string \<Rightarrow> bool \<Rightarrow> string" where
  "GetGetterName U fieldName isBoolean =
     (let prefix0 = ''get'';
          prefix1 = (if isBoolean
                     then (if \<not> HasPrefix (strings_ToLower U fieldName) ''is'' then ''is''
                           else prefix0)
                     else prefix0)
      in prefix1 @ capitalizeFirst U fieldName)"

definition GetSetterName :: "Unicode \<Rightarrow> string \<Rightarrow> string" where
  "GetSetterName U fieldName = ''set'' @ capitalizeFirst U fieldName"

definition java_keywords :: "string list" where
  "java_keywords =
     [''abstract'', ''assert'', ''boolean'', ''break'',
      ''byte'', ''case'', ''catch'', ''char'',
      ''class'', ''const'', ''continue'', ''default'',
      ''do'', ''double'', ''else'', ''enum'',
      ''extends'', ''final'', ''finally'', ''float'',
      ''for'', ''goto'', ''if'', ''implements'',
      ''import'', ''instanceof'', ''int'', ''interface'',
      ''long'', ''native'', ''new'', ''package'',
      ''private'', ''protected'', ''public'', ''return'',
      ''short'', ''static'', ''strictfp'', ''super'',
      ''switch'', ''synchronized'', ''this'', ''throw'',
      ''throws'', ''transient'', ''try'', ''void'',
      ''volatile'', ''while'', ''true'', ''false'',
      ''null'', ''var'', ''yield'', ''record'',
      ''sealed'', ''permits'', ''non-sealed'']"

definition IsJavaKeyword :: "string \<Rightarrow> bool" where
  "IsJavaKeyword word = (word \<in> set java_keywords)"

definition EscapeJavaKeyword :: "string \<Rightarrow> string" where
  "EscapeJavaKeyword name = (if IsJavaKeyword name then ''_'' @ name else name)"

section \<open>Structural-boilerplate (Lombok) annotations\<close>

record LombokConfig =
  lc_Enabled :: bool
  lc_Data :: bool
  lc_Builder :: bool
  lc_NoArgsConstructor :: bool
  lc_AllArgsConstructor :: bool
  lc_Getter :: bool
  lc_Setter :: bool

record LombokDirectiveInfo =
  Exclude :: "string list"
  Include :: "string list"

record LombokAnnotation =
  la_Name :: string
  la_Import :: string

text \<open>
  \<^verbatim>\<open>LombokAnnotations()\<close>: a Go map literal with distinct keys, here as an association
  list read with \<^const>\<open>map_of\<close>.
\<close>

definition LombokAnnotations :: "(string \<times> LombokAnnotation) list" where
  "LombokAnnotations =
     [(''data'', \<lparr>la_Name = ''@Data'', la_Import = ''lombok.Data''\<rparr>),
      (''builder'', \<lparr>la_Name = ''@Builder'', la_Import = ''lombok.Builder''\<rparr>),
      (''noArgsConstructor'',
         \<lparr>la_Name = ''@NoArgsConstructor'', la_Import = ''lombok.NoArgsConstructor''\<rparr>),
      (''allArgsConstructor'',
         \<lparr>la_Name = ''@AllArgsConstructor'', la_Import = ''lombok.AllArgsConstructor''\<rparr>),
      (''getter'', \<lparr>la_Name = ''@Getter'', la_Import = ''lombok.Getter''\<rparr>),
      (''setter'', \<lparr>la_Name = ''@Setter'', la_Import = ''lombok.Setter''\<rparr>),
      (''toString'', \<lparr>la_Name = ''@ToString'', la_Import = ''lombok.ToString''\<rparr>),
      (''equalsAndHashCode'',
         \<lparr>la_Name = ''@EqualsAndHashCode'', la_Import = ''lombok.EqualsAndHashCode''\<rparr>),
      (''value'', \<lparr>la_Name = ''@Value'', la_Import = ''lombok.Value''\<rparr>),
      (''superBuilder'',
         \<lparr>la_Name = ''@SuperBuilder'', la_Import = ''lombok.experimental.SuperBuilder''\<rparr>)]"

text \<open>
  \<^verbatim>\<open>getEnabledAnnotations\<close>. The Go map \<^verbatim>\<open>enabled\<close> is an association list whose
  assignment \<^verbatim>\<open>enabled[k] = v\<close> is \<^const>\<open>AList.update\<close> (overwrite in place, or append
  a new key). Go leaves the iteration order of a map unspecified; where the caller ranges
  over \<^verbatim>\<open>enabled\<close> the model ranges in the order of this list, which is one of the
  orders Go may take.
\<close>

definition lombok_defaults :: "LombokConfig \<Rightarrow> (string \<times> bool) list" where
  "lombok_defaults config =
     [(''data'', lc_Data config),
      (''builder'', lc_Builder config),
      (''noArgsConstructor'', lc_NoArgsConstructor config),
      (''allArgsConstructor'', lc_AllArgsConstructor config),
      (''getter'', lc_Getter config),
      (''setter'', lc_Setter config)]"

fun process_excludes :: "(string \<times> bool) list \<Rightarrow> string list \<Rightarrow> (string \<times> bool) list" where
  "process_excludes enabled [] = enabled"
| "process_excludes enabled (exclude # rest) =
     process_excludes (AList.update exclude False enabled) rest"

fun process_includes :: "(string \<times> bool) list \<Rightarrow> string list \<Rightarrow> (string \<times> bool) list" where
  "process_includes enabled [] = enabled"
| "process_includes enabled (include # rest) =
     process_includes (AList.update include True enabled) rest"

definition getEnabledAnnotations ::
  "LombokConfig \<Rightarrow> LombokDirectiveInfo option \<Rightarrow> (string \<times> bool) list" where
  "getEnabledAnnotations config directive =
     (let enabled = lombok_defaults config
      in case directive of
           None \<Rightarrow> enabled
         | Some d \<Rightarrow> process_includes (process_excludes enabled (Exclude d)) (Include d))"

definition NeedsGettersSetters :: "LombokConfig \<Rightarrow> bool" where
  "NeedsGettersSetters config =
     (if \<not> lc_Enabled config then True
      else if lc_Data config then False
      else \<not> lc_Getter config \<or> \<not> lc_Setter config)"

definition NeedsConstructors :: "LombokConfig \<Rightarrow> bool" where
  "NeedsConstructors config =
     (if \<not> lc_Enabled config then True
      else \<not> lc_NoArgsConstructor config \<and> \<not> lc_AllArgsConstructor config)"

section \<open>Import accumulator\<close>

text \<open>
  \<^verbatim>\<open>ImportManager.imports\<close> is a \<^verbatim>\<open>map[string]bool\<close> that only ever stores
  \<^verbatim>\<open>true\<close>: a set of strings.
\<close>

record ImportManager =
  im_imports :: "string set"
  im_package :: string

definition NewImportManager :: "string \<Rightarrow> ImportManager" where
  "NewImportManager pkg = \<lparr>im_imports = {}, im_package = pkg\<rparr>"

definition isSamePackage :: "ImportManager \<Rightarrow> string \<Rightarrow> bool" where
  "isSamePackage m imp =
     (if im_package m = [] then False
      else (let lastDot = LastIndex imp (CHR ''.'')
            in if lastDot < 0 then False
               else take (nat lastDot) imp = im_package m))"

definition Add :: "ImportManager \<Rightarrow> string \<Rightarrow> ImportManager" where
  "Add m imp =
     (if imp = [] then m
      else if HasPrefix imp ''java.lang.'' \<and> \<not> Contains (drop 10 imp) ''.'' then m
      else if isSamePackage m imp then m
      else m\<lparr>im_imports := insert imp (im_imports m)\<rparr>)"

fun AddAll :: "ImportManager \<Rightarrow> string list \<Rightarrow> ImportManager" where
  "AddAll m [] = m"
| "AddAll m (imp # rest) = AddAll (Add m imp) rest"

definition Has :: "ImportManager \<Rightarrow> string \<Rightarrow> bool" where
  "Has m imp = (imp \<in> im_imports m)"

text \<open>\<^verbatim>\<open>sort.Strings\<close> orders strings bytewise, which is the order of \<^typ>\<open>string\<close> here.\<close>

definition GetSorted :: "ImportManager \<Rightarrow> string list" where
  "GetSorted m = sorted_list_of_set (im_imports m)"

definition getImportPrefix :: "string \<Rightarrow> string" where
  "getImportPrefix imp =
     (case SplitN imp (CHR ''.'') 3 of
        p0 # p1 # _ \<Rightarrow> p0 @ ''.'' @ p1
      | [p0] \<Rightarrow> p0
      | [] \<Rightarrow> [])"

text \<open>
  The loop of \<^verbatim>\<open>GetGrouped\<close> with its three variables; it returns the groups closed so
  far and the group still open.
\<close>

fun group_loop ::
  "string list list \<Rightarrow> string list \<Rightarrow> string \<Rightarrow> string list \<Rightarrow> string list list \<times> string list" where
  "group_loop groups currentGroup currentPrefix [] = (groups, currentGroup)"
| "group_loop groups currentGroup currentPrefix (imp # rest) =
     (let prefix0 = getImportPrefix imp
      in if currentPrefix \<noteq> [] \<and> prefix0 \<noteq> currentPrefix
         then group_loop (if currentGroup \<noteq> [] then groups @ [currentGroup] else groups)
                [imp] prefix0 rest
         else group_loop groups (currentGroup @ [imp]) prefix0 rest)"

definition GetGrouped :: "ImportManager \<Rightarrow> string list list" where
  "GetGrouped m =
     (let sorted0 = GetSorted m
      in if sorted0 = [] then []
         else (case group_loop [] [] [] sorted0 of
                 (groups, currentGroup) \<Rightarrow>
                   if currentGroup \<noteq> [] then groups @ [currentGroup] else groups))"

definition import_line :: "string \<Rightarrow> string" where
  "import_line imp = ''import '' @ imp @ '';\<newline>''"

text \<open>The loop of \<^verbatim>\<open>GenerateImportBlock\<close> over the groups, with its index \<open>i\<close>.\<close>

fun block_loop :: "nat \<Rightarrow> nat \<Rightarrow> string list list \<Rightarrow> string" where
  "block_loop i n [] = []"
| "block_loop i n (grp # rest) =
     concat (map import_line grp)
     @ (if int i < int n - 1 then ''\<newline>'' else [])
     @ block_loop (Suc i) n rest"

definition GenerateImportBlock :: "ImportManager \<Rightarrow> string" where
  "GenerateImportBlock m =
     (let groups = GetGrouped m
      in if groups = [] then [] else block_loop 0 (length groups) groups)"

text \<open>A call of the accumulator's interface, for sequences of calls.\<close>

datatype import_call = CallAdd string | CallAddAll "string list"

fun run_call :: "ImportManager \<Rightarrow> import_call \<Rightarrow> ImportManager" where
  "run_call m (CallAdd imp) = Add m imp"
| "run_call m (CallAddAll imps) = AddAll m imps"

fun run_calls :: "ImportManager \<Rightarrow> import_call list \<Rightarrow> ImportManager" where
  "run_calls m [] = m"
| "run_calls m (c # cs) = run_calls (run_call m c) cs"


section \<open>Schema model\<close>

text \<open>
  The parser's output (\<^verbatim>\<open>internal/parser\<close>): the generator starts from these values.
  Source locations, field arguments and default values are not read by the generator and
  are left out.
\<close>

text \<open>
  \<^verbatim>\<open>TypeKind\<close> is a string type with six constants, the only values the parser
  produces (\<^verbatim>\<open>convertTypeKind\<close>). The \<^verbatim>\<open>default\<close> branch of
  \<^verbatim>\<open>generateType\<close>, for any other string, returns no file, as the scalar branch does.
\<close>

datatype TypeKind =
  TypeKindObject | TypeKindInterface | TypeKindInputObject
  | TypeKindEnum | TypeKindUnion | TypeKindScalar

text \<open>
  \<^verbatim>\<open>TypeRef\<close>: \<^verbatim>\<open>Elem\<close> is a pointer, nil for a named type. Nothing in the type
  keeps a reference from having both a name and an element, or neither.
\<close>

datatype TypeRef = TypeRef (tr_Name: string) (tr_Elem: "TypeRef option") (tr_NonNull: bool)

fun IsList :: "TypeRef \<Rightarrow> bool" where
  "IsList (TypeRef name elem nonNull) = (elem \<noteq> None)"

fun NamedType :: "TypeRef \<Rightarrow> string" where
  "NamedType (TypeRef name None nonNull) = name"
| "NamedType (TypeRef name (Some elem) nonNull) = NamedType elem"

text \<open>
  A directive argument is a Go \<^verbatim>\<open>interface{}\<close>; these are the dynamic types the
  argument readers distinguish, and nil.
\<close>

datatype Value =
  VString string | VInt int | VInt64 int | VFloat64 real | VBool bool
  | VList "Value list" | VMap "(string \<times> Value) list" | VNil

record DirectiveDef =
  dd_Name :: string
  dd_Arguments :: "string \<rightharpoonup> Value"

record FieldDef =
  fd_Name :: string
  fd_Description :: string
  fd_Type :: "TypeRef option"
  fd_Directives :: "DirectiveDef list"

record EnumValueDef =
  ev_Name :: string
  ev_Description :: string
  ev_Directives :: "DirectiveDef list"

record TypeDef =
  td_Name :: string
  td_Kind :: TypeKind
  td_Description :: string
  td_Fields :: "FieldDef list"
  td_EnumValues :: "EnumValueDef list"
  td_Interfaces :: "string list"
  td_Directives :: "DirectiveDef list"

text \<open>
  \<^verbatim>\<open>Schema.Types\<close> is a Go map from type name to definition. The generator both looks
  names up in it and ranges over it; it is an association list here, looked up with
  \<^const>\<open>map_of\<close> and ranged over in list order (Go leaves the order unspecified).
\<close>

record Schema =
  sc_Types :: "(string \<times> TypeDef) list"

definition GetType :: "Schema \<Rightarrow> string \<Rightarrow> TypeDef option" where
  "GetType s name = map_of (sc_Types s) name"

subsection \<open>Directive arguments\<close>

definition GetArgumentString :: "DirectiveDef \<Rightarrow> string \<Rightarrow> string" where
  "GetArgumentString d name =
     (case dd_Arguments d name of Some (VString s) \<Rightarrow> s | _ \<Rightarrow> [])"

text \<open>
  Go's conversion \<^verbatim>\<open>int(f)\<close> of a float drops the fraction. The model has the
  unbounded integers and the reals; it is the code's for arguments within the range of
  \<^verbatim>\<open>int\<close>, beyond which Go leaves the converted value to the implementation.
\<close>

definition truncate_real :: "real \<Rightarrow> int" where
  "truncate_real r = (if 0 \<le> r then \<lfloor>r\<rfloor> else \<lceil>r\<rceil>)"

definition GetArgumentInt :: "DirectiveDef \<Rightarrow> string \<Rightarrow> int \<times> bool" where
  "GetArgumentInt d name =
     (case dd_Arguments d name of
        Some (VInt n) \<Rightarrow> (n, True)
      | Some (VInt64 n) \<Rightarrow> (n, True)
      | Some (VFloat64 r) \<Rightarrow> (truncate_real r, True)
      | _ \<Rightarrow> (0, False))"

definition GetArgumentBool :: "DirectiveDef \<Rightarrow> string \<Rightarrow> bool \<times> bool" where
  "GetArgumentBool d name =
     (case dd_Arguments d name of Some (VBool b) \<Rightarrow> (b, True) | _ \<Rightarrow> (False, False))"

fun string_items :: "Value list \<Rightarrow> string list" where
  "string_items [] = []"
| "string_items (VString s # rest) = s # string_items rest"
| "string_items (v # rest) = string_items rest"

definition GetArgumentStringSlice :: "DirectiveDef \<Rightarrow> string \<Rightarrow> string list" where
  "GetArgumentStringSlice d name =
     (case dd_Arguments d name of Some (VList arr) \<Rightarrow> string_items arr | _ \<Rightarrow> [])"

subsection \<open>Directive extraction\<close>

text \<open>
  Each extractor returns a pointer, nil when the directive is absent: an option here.
  \<^verbatim>\<open>SkipDirectiveInfo\<close> has the one field \<^verbatim>\<open>Applied\<close>.
\<close>

fun ExtractSkipDirective :: "DirectiveDef list \<Rightarrow> bool option" where
  "ExtractSkipDirective [] = None"
| "ExtractSkipDirective (d # ds) =
     (if dd_Name d = ''skip'' then Some True else ExtractSkipDirective ds)"

fun ExtractJavaNameDirective :: "DirectiveDef list \<Rightarrow> string option" where
  "ExtractJavaNameDirective [] = None"
| "ExtractJavaNameDirective (d # ds) =
     (if dd_Name d = ''javaName'' \<and> GetArgumentString d ''name'' \<noteq> []
      then Some (GetArgumentString d ''name'')
      else ExtractJavaNameDirective ds)"

record JavaTypeDirectiveInfo =
  jt_Type :: string
  jt_Imports :: "string list"

fun ExtractJavaTypeDirective :: "DirectiveDef list \<Rightarrow> JavaTypeDirectiveInfo option" where
  "ExtractJavaTypeDirective [] = None"
| "ExtractJavaTypeDirective (d # ds) =
     (if dd_Name d = ''javaType'' \<and> GetArgumentString d ''type'' \<noteq> []
      then Some \<lparr>jt_Type = GetArgumentString d ''type'',
                 jt_Imports = GetArgumentStringSlice d ''imports''\<rparr>
      else ExtractJavaTypeDirective ds)"

text \<open>\<^verbatim>\<open>DeprecatedDirectiveInfo\<close> has the one field \<^verbatim>\<open>Reason\<close>.\<close>

fun ExtractDeprecatedDirective :: "DirectiveDef list \<Rightarrow> string option" where
  "ExtractDeprecatedDirective [] = None"
| "ExtractDeprecatedDirective (d # ds) =
     (if dd_Name d = ''deprecated'' then Some (GetArgumentString d ''reason'')
      else ExtractDeprecatedDirective ds)"

record AnnotationDirectiveInfo =
  ad_Value :: string
  ad_Imports :: "string list"

fun ExtractAnnotationDirectives :: "DirectiveDef list \<Rightarrow> AnnotationDirectiveInfo list" where
  "ExtractAnnotationDirectives [] = []"
| "ExtractAnnotationDirectives (d # ds) =
     (if dd_Name d = ''annotation'' \<and> GetArgumentString d ''value'' \<noteq> []
      then \<lparr>ad_Value = GetArgumentString d ''value'',
            ad_Imports = GetArgumentStringSlice d ''imports''\<rparr> # ExtractAnnotationDirectives ds
      else ExtractAnnotationDirectives ds)"

record ConstraintDirectiveInfo =
  cd_MinLength :: "int option"
  cd_MaxLength :: "int option"
  cd_Min :: "int option"
  cd_Max :: "int option"
  cd_Pattern :: string
  cd_NotNull :: bool
  cd_NotBlank :: bool
  cd_Email :: bool

definition opt_int :: "int \<times> bool \<Rightarrow> int option" where
  "opt_int p = (case p of (v, ok) \<Rightarrow> if ok then Some v else None)"

definition opt_bool :: "bool \<times> bool \<Rightarrow> bool" where
  "opt_bool p = (case p of (v, ok) \<Rightarrow> if ok then v else False)"

fun ExtractConstraintDirective :: "DirectiveDef list \<Rightarrow> ConstraintDirectiveInfo option" where
  "ExtractConstraintDirective [] = None"
| "ExtractConstraintDirective (d # ds) =
     (if dd_Name d = ''constraint''
      then Some \<lparr>cd_MinLength = opt_int (GetArgumentInt d ''minLength''),
                 cd_MaxLength = opt_int (GetArgumentInt d ''maxLength''),
                 cd_Min = opt_int (GetArgumentInt d ''min''),
                 cd_Max = opt_int (GetArgumentInt d ''max''),
                 cd_Pattern = GetArgumentString d ''pattern'',
                 cd_NotNull = opt_bool (GetArgumentBool d ''notNull''),
                 cd_NotBlank = opt_bool (GetArgumentBool d ''notBlank''),
                 cd_Email = opt_bool (GetArgumentBool d ''email'')\<rparr>
      else ExtractConstraintDirective ds)"

fun ExtractLombokDirective :: "DirectiveDef list \<Rightarrow> LombokDirectiveInfo option" where
  "ExtractLombokDirective [] = None"
| "ExtractLombokDirective (d # ds) =
     (if dd_Name d = ''lombok''
      then Some \<lparr>Exclude = GetArgumentStringSlice d ''exclude'',
                 Include = GetArgumentStringSlice d ''include''\<rparr>
      else ExtractLombokDirective ds)"

text \<open>\<^verbatim>\<open>CollectionDirectiveInfo\<close> has the one field \<^verbatim>\<open>Type\<close>.\<close>

fun ExtractCollectionDirective :: "DirectiveDef list \<Rightarrow> string option" where
  "ExtractCollectionDirective [] = None"
| "ExtractCollectionDirective (d # ds) =
     (if dd_Name d = ''collection'' \<and> GetArgumentString d ''type'' \<noteq> []
      then Some (GetArgumentString d ''type'')
      else ExtractCollectionDirective ds)"

section \<open>Configuration\<close>

record NamingConfig =
  nc_FieldCase :: string
  nc_ClassSuffix :: string
  nc_InterfacePrefix :: string

record JavaConfig =
  jc_Version :: int
  jc_FieldVisibility :: string
  jc_CollectionType :: string
  jc_NullableHandling :: string
  jc_Naming :: NamingConfig

record ScalarMapping =
  sm_JavaType :: string
  sm_Imports :: "string list"

record ValidationConfig =
  vc_Enabled :: bool
  vc_Package :: string
  vc_NotNullOnNonNull :: bool

text \<open>
  The parts of \<^verbatim>\<open>Config\<close> the generator reads: \<^verbatim>\<open>Output.Package\<close>,
  \<^verbatim>\<open>Java\<close>, \<^verbatim>\<open>TypeMappings.Scalars\<close> (a Go map) and the two feature blocks.
\<close>

record Config =
  cf_Output_Package :: string
  cf_Java :: JavaConfig
  cf_TypeMappings_Scalars :: "string \<rightharpoonup> ScalarMapping"
  cf_Features_Lombok :: LombokConfig
  cf_Features_Validation :: ValidationConfig

definition DefaultConfig :: Config where
  "DefaultConfig =
     \<lparr>cf_Output_Package = ''com.example.model'',
      cf_Java = \<lparr>jc_Version = 17, jc_FieldVisibility = ''private'',
                 jc_CollectionType = ''List'', jc_NullableHandling = ''wrapper'',
                 jc_Naming = \<lparr>nc_FieldCase = ''camelCase'', nc_ClassSuffix = [],
                              nc_InterfacePrefix = []\<rparr>\<rparr>,
      cf_TypeMappings_Scalars = Map.empty,
      cf_Features_Lombok =
        \<lparr>lc_Enabled = False, lc_Data = True, lc_Builder = False,
         lc_NoArgsConstructor = True, lc_AllArgsConstructor = False,
         lc_Getter = False, lc_Setter = False\<rparr>,
      cf_Features_Validation =
        \<lparr>vc_Enabled = False, vc_Package = ''jakarta'', vc_NotNullOnNonNull = True\<rparr>\<rparr>"

section \<open>Scalar and collection registry\<close>

record ScalarInfo =
  si_JavaType :: string
  si_PrimitiveType :: string
  si_Imports :: "string list"
  si_Boxed :: string

definition scalar :: "string \<Rightarrow> string \<Rightarrow> string list \<Rightarrow> ScalarInfo" where
  "scalar javaType primitiveType imps =
     \<lparr>si_JavaType = javaType, si_PrimitiveType = primitiveType, si_Imports = imps,
      si_Boxed = []\<rparr>"

definition BuiltinScalars :: "string \<rightharpoonup> ScalarInfo" where
  "BuiltinScalars = map_of
     [(''String'', scalar ''String'' [] []),
      (''Int'', scalar ''Integer'' ''int'' []),
      (''Float'', scalar ''Double'' ''double'' []),
      (''Boolean'', scalar ''Boolean'' ''boolean'' []),
      (''ID'', scalar ''String'' [] [])]"

definition CommonScalars :: "string \<rightharpoonup> ScalarInfo" where
  "CommonScalars = map_of
     [(''DateTime'', scalar ''LocalDateTime'' [] [''java.time.LocalDateTime'']),
      (''Date'', scalar ''LocalDate'' [] [''java.time.LocalDate'']),
      (''Time'', scalar ''LocalTime'' [] [''java.time.LocalTime'']),
      (''Instant'', scalar ''Instant'' [] [''java.time.Instant'']),
      (''UUID'', scalar ''UUID'' [] [''java.util.UUID'']),
      (''BigDecimal'', scalar ''BigDecimal'' [] [''java.math.BigDecimal'']),
      (''BigInteger'', scalar ''BigInteger'' [] [''java.math.BigInteger'']),
      (''Long'', scalar ''Long'' ''long'' []),
      (''Short'', scalar ''Short'' ''short'' []),
      (''Byte'', scalar ''Byte'' ''byte'' []),
      (''Char'', scalar ''Character'' ''char'' []),
      (''JSON'', scalar ''JsonNode'' [] [''com.fasterxml.jackson.databind.JsonNode'']),
      (''JSONObject'', scalar ''ObjectNode'' []
         [''com.fasterxml.jackson.databind.node.ObjectNode'']),
      (''JSONArray'', scalar ''ArrayNode'' []
         [''com.fasterxml.jackson.databind.node.ArrayNode'']),
      (''URL'', scalar ''URL'' [] [''java.net.URL'']),
      (''URI'', scalar ''URI'' [] [''java.net.URI''])]"

definition PrimitiveToBoxed :: "string \<rightharpoonup> string" where
  "PrimitiveToBoxed = map_of
     [(''int'', ''Integer''), (''long'', ''Long''), (''short'', ''Short''),
      (''byte'', ''Byte''), (''float'', ''Float''), (''double'', ''Double''),
      (''boolean'', ''Boolean''), (''char'', ''Character'')]"

definition BoxedToPrimitive :: "string \<rightharpoonup> string" where
  "BoxedToPrimitive = map_of
     [(''Integer'', ''int''), (''Long'', ''long''), (''Short'', ''short''),
      (''Byte'', ''byte''), (''Float'', ''float''), (''Double'', ''double''),
      (''Boolean'', ''boolean''), (''Character'', ''char'')]"

definition IsPrimitive :: "string \<Rightarrow> bool" where
  "IsPrimitive javaType = (PrimitiveToBoxed javaType \<noteq> None)"

definition IsBoxed :: "string \<Rightarrow> bool" where
  "IsBoxed javaType = (BoxedToPrimitive javaType \<noteq> None)"

definition BoxType :: "string \<Rightarrow> string" where
  "BoxType javaType =
     (case PrimitiveToBoxed javaType of Some boxed \<Rightarrow> boxed | None \<Rightarrow> javaType)"

definition UnboxType :: "string \<Rightarrow> string" where
  "UnboxType javaType =
     (case BoxedToPrimitive javaType of Some primitive \<Rightarrow> primitive | None \<Rightarrow> javaType)"

record CollectionInfo =
  ci_Interface :: string
  ci_Implementation :: string
  ci_Imports :: "string list"

definition CollectionTypes :: "string \<rightharpoonup> CollectionInfo" where
  "CollectionTypes = map_of
     [(''List'', \<lparr>ci_Interface = ''List'', ci_Implementation = ''ArrayList'',
                  ci_Imports = [''java.util.List'', ''java.util.ArrayList'']\<rparr>),
      (''Set'', \<lparr>ci_Interface = ''Set'', ci_Implementation = ''HashSet'',
                 ci_Imports = [''java.util.Set'', ''java.util.HashSet'']\<rparr>),
      (''Collection'', \<lparr>ci_Interface = ''Collection'', ci_Implementation = ''ArrayList'',
                        ci_Imports = [''java.util.Collection'', ''java.util.ArrayList'']\<rparr>),
      (''SortedSet'', \<lparr>ci_Interface = ''SortedSet'', ci_Implementation = ''TreeSet'',
                       ci_Imports = [''java.util.SortedSet'', ''java.util.TreeSet'']\<rparr>),
      (''LinkedList'', \<lparr>ci_Interface = ''List'', ci_Implementation = ''LinkedList'',
                        ci_Imports = [''java.util.List'', ''java.util.LinkedList'']\<rparr>)]"

text \<open>
  \<^verbatim>\<open>GetCollectionInfo\<close> falls back to \<^verbatim>\<open>collections["List"]\<close>, which is the
  record written out in the second branch.
\<close>

definition GetCollectionInfo :: "string \<Rightarrow> CollectionInfo" where
  "GetCollectionInfo collectionType =
     (case CollectionTypes collectionType of
        Some info \<Rightarrow> info
      | None \<Rightarrow> \<lparr>ci_Interface = ''List'', ci_Implementation = ''ArrayList'',
                  ci_Imports = [''java.util.List'', ''java.util.ArrayList'']\<rparr>)"

definition FormatCollectionType :: "string \<Rightarrow> string \<Rightarrow> string" where
  "FormatCollectionType collectionType elementType =
     ci_Interface (GetCollectionInfo collectionType) @ ''<'' @ elementType @ ''>''"

definition OptionalInfo_Imports :: "string list" where
  "OptionalInfo_Imports = [''java.util.Optional'']"

definition FormatOptionalType :: "string \<Rightarrow> string" where
  "FormatOptionalType elementType = ''Optional<'' @ BoxType elementType @ ''>''"

section \<open>Errors\<close>

text \<open>
  The error values the generator builds: a type-mapping error (message, cause, source
  type), a generation error (message, cause, type name, field name) and the collection
  that \<^verbatim>\<open>ErrorCollection.ToError\<close> returns for several errors.
\<close>

datatype Error =
  TypeMappingError string "Error option" string
  | GenerateError string "Error option" string string
  | ErrorCollection "Error list"

definition ToError :: "Error list \<Rightarrow> Error option" where
  "ToError errs =
     (case errs of [] \<Rightarrow> None | [e] \<Rightarrow> Some e | _ \<Rightarrow> Some (ErrorCollection errs))"

section \<open>Type mapper\<close>

record TypeMapper =
  tm_config :: Config
  tm_customScalars :: "string \<rightharpoonup> ScalarInfo"
  tm_builtinScalars :: "string \<rightharpoonup> ScalarInfo"
  tm_schemaTypes :: "string \<rightharpoonup> TypeDef"

text \<open>
  \<^verbatim>\<open>NewTypeMapper\<close> copies every configured scalar mapping into
  \<^verbatim>\<open>customScalars\<close>, filling only \<^verbatim>\<open>JavaType\<close> and \<^verbatim>\<open>Imports\<close>.
\<close>

definition NewTypeMapper :: "Config \<Rightarrow> TypeMapper" where
  "NewTypeMapper cfg =
     \<lparr>tm_config = cfg,
      tm_customScalars =
        (\<lambda>name. case cf_TypeMappings_Scalars cfg name of
                   None \<Rightarrow> None
                 | Some mapping \<Rightarrow> Some (scalar (sm_JavaType mapping) [] (sm_Imports mapping))),
      tm_builtinScalars = BuiltinScalars,
      tm_schemaTypes = Map.empty\<rparr>"

definition SetSchemaTypes :: "TypeMapper \<Rightarrow> (string \<rightharpoonup> TypeDef) \<Rightarrow> TypeMapper" where
  "SetSchemaTypes tm types = tm\<lparr>tm_schemaTypes := types\<rparr>"

record MapResult =
  mr_JavaType :: string
  mr_Imports :: "string list"
  mr_IsPrimitive :: bool
  mr_IsCollection :: bool
  mr_IsOptional :: bool
  mr_ElementType :: string

text \<open>A \<^verbatim>\<open>MapResult\<close> literal that sets the type, the imports and the primitive flag.\<close>

definition result_of :: "string \<Rightarrow> string list \<Rightarrow> bool \<Rightarrow> MapResult" where
  "result_of javaType imps isPrimitive =
     \<lparr>mr_JavaType = javaType, mr_Imports = imps, mr_IsPrimitive = isPrimitive,
      mr_IsCollection = False, mr_IsOptional = False, mr_ElementType = []\<rparr>"

definition getJavaTypeName :: "TypeMapper \<Rightarrow> TypeDef \<Rightarrow> string" where
  "getJavaTypeName tm typeDef =
     (case ExtractJavaNameDirective (td_Directives typeDef) of
        Some javaName \<Rightarrow> javaName
      | None \<Rightarrow>
          (let naming = jc_Naming (cf_Java (tm_config tm)); name = td_Name typeDef
           in case td_Kind typeDef of
                TypeKindInterface \<Rightarrow>
                  if nc_InterfacePrefix naming \<noteq> [] then nc_InterfacePrefix naming @ name
                  else name
              | TypeKindObject \<Rightarrow>
                  if nc_ClassSuffix naming \<noteq> [] then name @ nc_ClassSuffix naming else name
              | TypeKindInputObject \<Rightarrow>
                  if nc_ClassSuffix naming \<noteq> [] then name @ nc_ClassSuffix naming else name
              | _ \<Rightarrow> name))"

text \<open>
  \<^verbatim>\<open>mapNamedType\<close> has an error result in its signature and returns nil for it on
  every path.
\<close>

definition mapNamedType :: "TypeMapper \<Rightarrow> string \<Rightarrow> Error + MapResult" where
  "mapNamedType tm name =
     (case tm_customScalars tm name of
        Some s \<Rightarrow> Inr (result_of (si_JavaType s) (si_Imports s) (si_PrimitiveType s \<noteq> []))
      | None \<Rightarrow>
     (case tm_builtinScalars tm name of
        Some s \<Rightarrow> Inr (result_of (si_JavaType s) (si_Imports s) False)
      | None \<Rightarrow>
     (case CommonScalars name of
        Some s \<Rightarrow> Inr (result_of (si_JavaType s) (si_Imports s) False)
      | None \<Rightarrow>
     (case tm_schemaTypes tm name of
        Some typeDef \<Rightarrow> Inr (result_of (getJavaTypeName tm typeDef) [] False)
      | None \<Rightarrow> Inr (result_of name [] False)))))"

definition applyNullability :: "TypeMapper \<Rightarrow> MapResult \<Rightarrow> MapResult" where
  "applyNullability tm result =
     (let handling = jc_NullableHandling (cf_Java (tm_config tm))
      in if handling = ''optional'' then
           (let javaType = (if mr_IsPrimitive result then BoxType (mr_JavaType result)
                            else mr_JavaType result)
            in result\<lparr>mr_JavaType := FormatOptionalType javaType,
                      mr_Imports := mr_Imports result @ OptionalInfo_Imports,
                      mr_IsOptional := True,
                      mr_IsPrimitive := False\<rparr>)
         else if handling = ''annotation'' then
           (if mr_IsPrimitive result
            then result\<lparr>mr_JavaType := BoxType (mr_JavaType result), mr_IsPrimitive := False\<rparr>
            else result)
         else
           (if mr_IsPrimitive result
            then result\<lparr>mr_JavaType := BoxType (mr_JavaType result), mr_IsPrimitive := False\<rparr>
            else result))"

fun mapTypeInternal :: "TypeMapper \<Rightarrow> TypeRef \<Rightarrow> bool \<Rightarrow> Error + MapResult" where
  "mapTypeInternal tm (TypeRef name (Some elem) nonNull) topLevel =
     (case mapTypeInternal tm elem False of
        Inl err \<Rightarrow>
          Inl (TypeMappingError ''failed to map list element type'' (Some err) (tr_Name elem))
      | Inr elemResult \<Rightarrow>
          (let elemType = (if mr_IsPrimitive elemResult then BoxType (mr_JavaType elemResult)
                           else mr_JavaType elemResult);
               collectionType = jc_CollectionType (cf_Java (tm_config tm));
               collectionInfo = GetCollectionInfo collectionType
           in Inr \<lparr>mr_JavaType = FormatCollectionType collectionType elemType,
                    mr_Imports = ci_Imports collectionInfo @ mr_Imports elemResult,
                    mr_IsPrimitive = False, mr_IsCollection = True, mr_IsOptional = False,
                    mr_ElementType = elemType\<rparr>))"
| "mapTypeInternal tm (TypeRef name None nonNull) topLevel =
     (case mapNamedType tm name of
        Inl err \<Rightarrow> Inl (TypeMappingError ''failed to map named type'' (Some err) name)
      | Inr result \<Rightarrow>
          (let result1 = (if topLevel \<and> \<not> nonNull then applyNullability tm result
                          else result);
               result2 =
                 (if topLevel \<and> nonNull then
                    (case tm_builtinScalars tm name of
                       Some s \<Rightarrow>
                         if si_PrimitiveType s \<noteq> []
                         then result1\<lparr>mr_JavaType := si_PrimitiveType s, mr_IsPrimitive := True\<rparr>
                         else result1
                     | None \<Rightarrow> result1)
                  else result1)
           in Inr result2))"

definition MapType :: "TypeMapper \<Rightarrow> TypeRef option \<Rightarrow> Error + MapResult" where
  "MapType tm typeRef =
     (case typeRef of
        None \<Rightarrow> Inr (result_of ''Object'' [] False)
      | Some r \<Rightarrow> mapTypeInternal tm r True)"

definition getElementImports :: "TypeMapper \<Rightarrow> string \<Rightarrow> string list" where
  "getElementImports tm elementType =
     (case tm_customScalars tm elementType of
        Some s \<Rightarrow> si_Imports s
      | None \<Rightarrow> (case CommonScalars elementType of Some s \<Rightarrow> si_Imports s | None \<Rightarrow> []))"

definition MapFieldType :: "TypeMapper \<Rightarrow> FieldDef \<Rightarrow> Error + MapResult" where
  "MapFieldType tm field =
     (case ExtractJavaTypeDirective (fd_Directives field) of
        Some javaType \<Rightarrow> Inr (result_of (jt_Type javaType) (jt_Imports javaType) False)
      | None \<Rightarrow>
          (let collectionOverride = ExtractCollectionDirective (fd_Directives field)
           in case MapType tm (fd_Type field) of
                Inl err \<Rightarrow> Inl err
              | Inr result \<Rightarrow>
                  (case collectionOverride of
                     Some ctype \<Rightarrow>
                       if mr_IsCollection result
                       then Inr (result\<lparr>mr_JavaType :=
                                          FormatCollectionType ctype (mr_ElementType result),
                                        mr_Imports :=
                                          ci_Imports (GetCollectionInfo ctype)
                                          @ getElementImports tm (mr_ElementType result)\<rparr>)
                       else Inr result
                   | None \<Rightarrow> Inr result)))"

text \<open>
  \<^verbatim>\<open>ValidateMapping\<close> returns an error value that its callers treat as a warning.
\<close>

fun ValidateMapping :: "TypeMapper \<Rightarrow> TypeRef option \<Rightarrow> Error option" where
  "ValidateMapping tm None = None"
| "ValidateMapping tm (Some (TypeRef name (Some elem) nonNull)) = ValidateMapping tm (Some elem)"
| "ValidateMapping tm (Some (TypeRef name None nonNull)) =
     (if tm_builtinScalars tm name \<noteq> None then None
      else if tm_customScalars tm name \<noteq> None then None
      else if CommonScalars name \<noteq> None then None
      else if tm_schemaTypes tm name \<noteq> None then None
      else Some (TypeMappingError ''unknown type, will use as-is'' None name))"

section \<open>Formatting helpers\<close>

text \<open>\<^verbatim>\<open>strings.Join\<close>.\<close>

fun Join :: "string list \<Rightarrow> string \<Rightarrow> string" where
  "Join [] sep = []"
| "Join [x] sep = x"
| "Join (x # y # ys) sep = x @ sep @ Join (y # ys) sep"

text \<open>The verb \<^verbatim>\<open>%d\<close> of \<^verbatim>\<open>fmt.Sprintf\<close>: a decimal numeral, with a sign when negative.\<close>

fun decimal :: "nat \<Rightarrow> string" where
  "decimal n =
     (if n < 10 then [char_of (48 + n)]
      else decimal (n div 10) @ [char_of (48 + n mod 10)])"

definition Sprintf_d :: "int \<Rightarrow> string" where
  "Sprintf_d i = (if i < 0 then ''-'' @ decimal (nat (- i)) else decimal (nat i))"

text \<open>
  \<^verbatim>\<open>strings.ReplaceAll(s, "\"", "\\\"")\<close>: a backslash before every double quote
  (byte 0x22; the backslash is byte 0x5C).
\<close>

definition escape_quotes :: "string \<Rightarrow> string" where
  "escape_quotes s = concat (map (\<lambda>c. if c = CHR 0x22 then [CHR 0x5C, CHR 0x22] else [c]) s)"

section \<open>Annotation generators\<close>

subsection \<open>Custom annotations and the deprecation marker\<close>

definition extractAnnotations :: "DirectiveDef list \<Rightarrow> string list \<times> string list" where
  "extractAnnotations directives =
     (let annotationInfos = ExtractAnnotationDirectives directives
      in if annotationInfos = [] then ([], [])
         else (map ad_Value annotationInfos, concat (map ad_Imports annotationInfos)))"

definition GenerateDeprecatedAnnotation :: "DirectiveDef list \<Rightarrow> string \<times> string" where
  "GenerateDeprecatedAnnotation directives =
     (case ExtractDeprecatedDirective directives of
        None \<Rightarrow> ([], [])
      | Some reason \<Rightarrow> (''@Deprecated'', []))"

subsection \<open>Validation annotations\<close>

definition GetValidationPackage :: "ValidationConfig \<Rightarrow> string" where
  "GetValidationPackage config =
     (if vc_Package config = ''jakarta'' then ''jakarta.validation.constraints''
      else if vc_Package config = ''javax'' then ''javax.validation.constraints''
      else ''jakarta.validation.constraints'')"

definition generateConstraintAnnotations ::
  "ConstraintDirectiveInfo \<Rightarrow> string \<Rightarrow> string list \<times> string list" where
  "generateConstraintAnnotations c basePkg =
     (let size =
            (if cd_MinLength c \<noteq> None \<or> cd_MaxLength c \<noteq> None
             then (let params =
                         (case cd_MinLength c of None \<Rightarrow> []
                          | Some v \<Rightarrow> [''min = '' @ Sprintf_d v])
                         @ (case cd_MaxLength c of None \<Rightarrow> []
                            | Some v \<Rightarrow> [''max = '' @ Sprintf_d v])
                   in [(''@Size('' @ Join params '', '' @ '')'', basePkg @ ''.Size'')])
             else []);
          minA = (case cd_Min c of None \<Rightarrow> []
                  | Some v \<Rightarrow> [(''@Min('' @ Sprintf_d v @ '')'', basePkg @ ''.Min'')]);
          maxA = (case cd_Max c of None \<Rightarrow> []
                  | Some v \<Rightarrow> [(''@Max('' @ Sprintf_d v @ '')'', basePkg @ ''.Max'')]);
          pat = (if cd_Pattern c \<noteq> []
                 then [(''@Pattern(regexp = '' @ [CHR 0x22] @ escape_quotes (cd_Pattern c)
                          @ [CHR 0x22] @ '')'', basePkg @ ''.Pattern'')]
                 else []);
          notNull = (if cd_NotNull c then [(''@NotNull'', basePkg @ ''.NotNull'')] else []);
          notBlank = (if cd_NotBlank c then [(''@NotBlank'', basePkg @ ''.NotBlank'')] else []);
          email = (if cd_Email c then [(''@Email'', basePkg @ ''.Email'')] else []);
          pairs = size @ minA @ maxA @ pat @ notNull @ notBlank @ email
      in (map fst pairs, map snd pairs))"

definition Validation_GenerateFieldAnnotations ::
  "ValidationConfig \<Rightarrow> FieldDef \<Rightarrow> bool \<Rightarrow> string list \<times> string list" where
  "Validation_GenerateFieldAnnotations config field nonNull =
     (if \<not> vc_Enabled config then ([], [])
      else
        (let basePkg = GetValidationPackage config;
             nn = (if nonNull \<and> vc_NotNullOnNonNull config
                   then ([''@NotNull''], [basePkg @ ''.NotNull'']) else ([], []));
             cs = (case ExtractConstraintDirective (fd_Directives field) of
                     None \<Rightarrow> ([], [])
                   | Some constraint \<Rightarrow> generateConstraintAnnotations constraint basePkg)
         in (fst nn @ fst cs, snd nn @ snd cs)))"

definition Validation_GenerateTypeAnnotations ::
  "ValidationConfig \<Rightarrow> TypeDef \<Rightarrow> string list \<times> string list" where
  "Validation_GenerateTypeAnnotations config typeDef = ([], [])"

subsection \<open>Lombok annotations of a type\<close>

fun lombok_loop :: "(string \<times> bool) list \<Rightarrow> string list \<times> string list" where
  "lombok_loop [] = ([], [])"
| "lombok_loop ((name, include) # rest) =
     (let r = lombok_loop rest
      in if include
         then (case map_of LombokAnnotations name of
                 Some ann \<Rightarrow> (la_Name ann # fst r, la_Import ann # snd r)
               | None \<Rightarrow> r)
         else r)"

definition Lombok_GenerateTypeAnnotations ::
  "LombokConfig \<Rightarrow> TypeDef \<Rightarrow> string list \<times> string list" where
  "Lombok_GenerateTypeAnnotations config typeDef =
     (if \<not> lc_Enabled config then ([], [])
      else lombok_loop
             (getEnabledAnnotations config (ExtractLombokDirective (td_Directives typeDef))))"

section \<open>Names of types, fields and enum values\<close>

text \<open>
  \<^verbatim>\<open>GetFieldName\<close> reaches the case mapping and takes the library as its first
  argument. The generators below pass the ASCII instance: the names of a schema are ASCII
  by the grammar of GraphQL (\<^verbatim>\<open>[_A-Za-z][_0-9A-Za-z]*\<close>), and a Java name given by
  the directive \<^verbatim>\<open>@javaName\<close> is modelled for ASCII values.
\<close>

definition GetTypeName :: "NamingConfig \<Rightarrow> TypeDef \<Rightarrow> string" where
  "GetTypeName config typeDef =
     (case ExtractJavaNameDirective (td_Directives typeDef) of
        Some javaName \<Rightarrow> javaName
      | None \<Rightarrow>
          (let name = td_Name typeDef
           in case td_Kind typeDef of
                TypeKindInterface \<Rightarrow>
                  if nc_InterfacePrefix config \<noteq> [] then nc_InterfacePrefix config @ name
                  else name
              | TypeKindObject \<Rightarrow>
                  if nc_ClassSuffix config \<noteq> [] then name @ nc_ClassSuffix config else name
              | TypeKindInputObject \<Rightarrow>
                  if nc_ClassSuffix config \<noteq> [] then name @ nc_ClassSuffix config else name
              | _ \<Rightarrow> name))"

definition GetFieldName :: "Unicode \<Rightarrow> NamingConfig \<Rightarrow> FieldDef \<Rightarrow> string" where
  "GetFieldName U config field =
     (case ExtractJavaNameDirective (fd_Directives field) of
        Some javaName \<Rightarrow> javaName
      | None \<Rightarrow>
          if nc_FieldCase config = ''snake_case'' then toSnakeCase U (fd_Name field)
          else toCamelCase U (fd_Name field))"

definition GetEnumValueName :: "EnumValueDef \<Rightarrow> string" where
  "GetEnumValueName enumValue =
     (case ExtractJavaNameDirective (ev_Directives enumValue) of
        Some javaName \<Rightarrow> javaName
      | None \<Rightarrow> ev_Name enumValue)"

section \<open>Generation contexts\<close>

text \<open>
  \<^verbatim>\<open>Context\<close>: the naming helper and the three annotation generators hold nothing but
  their block of the configuration, so the model reads those blocks from
  \<^verbatim>\<open>Config\<close>.
\<close>

record Context =
  ctx_Config :: Config
  ctx_Schema :: Schema
  ctx_TypeMapper :: TypeMapper

definition NewContext :: "Config \<Rightarrow> Schema \<Rightarrow> Context" where
  "NewContext cfg schema =
     \<lparr>ctx_Config = cfg, ctx_Schema = schema,
      ctx_TypeMapper = SetSchemaTypes (NewTypeMapper cfg) (map_of (sc_Types schema))\<rparr>"

text \<open>
  \<^verbatim>\<open>TypeContext\<close>: its import manager is the one piece of state that generation
  mutates; functions that add imports return the updated context.
\<close>

record TypeContext =
  tc_Context :: Context
  tc_TypeDef :: TypeDef
  tc_TypeName :: string
  tc_Imports :: ImportManager

definition NewTypeContext :: "Context \<Rightarrow> TypeDef \<Rightarrow> TypeContext" where
  "NewTypeContext ctx typeDef =
     \<lparr>tc_Context = ctx, tc_TypeDef = typeDef,
      tc_TypeName = GetTypeName (jc_Naming (cf_Java (ctx_Config ctx))) typeDef,
      tc_Imports = NewImportManager (cf_Output_Package (ctx_Config ctx))\<rparr>"

definition add_imports :: "TypeContext \<Rightarrow> string list \<Rightarrow> TypeContext" where
  "add_imports tc imps = tc\<lparr>tc_Imports := AddAll (tc_Imports tc) imps\<rparr>"

definition Type_ShouldSkip :: "TypeContext \<Rightarrow> bool" where
  "Type_ShouldSkip tc = (ExtractSkipDirective (td_Directives (tc_TypeDef tc)) \<noteq> None)"

definition GetVisibility :: "TypeContext \<Rightarrow> string" where
  "GetVisibility tc =
     (let v = jc_FieldVisibility (cf_Java (ctx_Config (tc_Context tc)))
      in if v = ''private'' then ''private''
         else if v = ''protected'' then ''protected''
         else if v = ''package'' then []
         else if v = ''public'' then ''public''
         else ''private'')"

text \<open>
  \<^verbatim>\<open>FieldContext\<close> embeds a pointer to the type context; the model passes the type
  context alongside.
\<close>

record FieldContext =
  fc_Field :: FieldDef
  fc_FieldName :: string
  fc_JavaType :: string
  fc_Imports :: "string list"
  fc_IsNonNull :: bool

definition NewFieldContext :: "TypeContext \<Rightarrow> FieldDef \<Rightarrow> Error + FieldContext" where
  "NewFieldContext tc field =
     (let fieldName = EscapeJavaKeyword
            (GetFieldName ascii (jc_Naming (cf_Java (ctx_Config (tc_Context tc)))) field)
      in case MapFieldType (ctx_TypeMapper (tc_Context tc)) field of
           Inl err \<Rightarrow> Inl err
         | Inr mapResult \<Rightarrow>
             Inr \<lparr>fc_Field = field, fc_FieldName = fieldName,
                  fc_JavaType = mr_JavaType mapResult, fc_Imports = mr_Imports mapResult,
                  fc_IsNonNull = (case fd_Type field of None \<Rightarrow> False
                                  | Some t \<Rightarrow> tr_NonNull t)\<rparr>)"

definition Field_ShouldSkip :: "FieldContext \<Rightarrow> bool" where
  "Field_ShouldSkip fc =
     (if ExtractSkipDirective (fd_Directives (fc_Field fc)) \<noteq> None then True
      else (case fd_Type (fc_Field fc) of
              None \<Rightarrow> False
            | Some t \<Rightarrow>
                (let namedType = NamedType t
                 in 2 \<le> length namedType \<and> take 2 namedType = ''__'')))"

definition IsBooleanType :: "FieldContext \<Rightarrow> bool" where
  "IsBooleanType fc = (fc_JavaType fc = ''boolean'' \<or> fc_JavaType fc = ''Boolean'')"

section \<open>Field generator\<close>

text \<open>
  \<^verbatim>\<open>generateJavadoc\<close> of the field generator, with the indentation as a parameter; the
  class, interface, enum and union generators have the same function with no
  indentation, and the enum generator a third one for its values, indented by four
  spaces.
\<close>

definition generateJavadoc :: "string \<Rightarrow> string \<Rightarrow> string" where
  "generateJavadoc description indent =
     indent @ ''/**\<newline>''
     @ concat (map (\<lambda>line. indent @ '' * '' @ TrimSpace line @ ''\<newline>'')
                 (Split description (CHR 0x0A)))
     @ indent @ '' */\<newline>''"

text \<open>Writing a list of annotation lines, each after the given indentation.\<close>

definition write_annotations :: "string \<Rightarrow> string list \<Rightarrow> string" where
  "write_annotations indent anns = concat (map (\<lambda>ann. indent @ ann @ ''\<newline>'') anns)"

definition generateFieldAnnotations ::
  "TypeContext \<Rightarrow> FieldContext \<Rightarrow> string list \<times> TypeContext" where
  "generateFieldAnnotations tc fc =
     (let cfg = ctx_Config (tc_Context tc);
          deprecated = fst (GenerateDeprecatedAnnotation (fd_Directives (fc_Field fc)));
          annotations0 = (if deprecated \<noteq> [] then [deprecated] else []);
          validation = Validation_GenerateFieldAnnotations (cf_Features_Validation cfg)
                         (fc_Field fc) (fc_IsNonNull fc);
          tc1 = add_imports tc (snd validation);
          custom = extractAnnotations (fd_Directives (fc_Field fc));
          tc2 = add_imports tc1 (snd custom)
      in (annotations0 @ fst validation @ fst custom, tc2))"

definition GenerateField :: "TypeContext \<Rightarrow> FieldContext \<Rightarrow> string \<times> TypeContext" where
  "GenerateField tc fc =
     (let tc1 = add_imports tc (fc_Imports fc);
          doc = (if fd_Description (fc_Field fc) \<noteq> []
                 then generateJavadoc (fd_Description (fc_Field fc)) ''    '' else []);
          (annotations, tc2) = generateFieldAnnotations tc1 fc;
          visibility = GetVisibility tc2
      in (doc
          @ write_annotations ''    '' annotations
          @ (if visibility \<noteq> [] then ''    '' @ visibility @ '' '' else ''    '')
          @ fc_JavaType fc @ '' '' @ fc_FieldName fc @ '';\<newline>'',
          tc2))"

definition GenerateGetter :: "FieldContext \<Rightarrow> string" where
  "GenerateGetter fc =
     (let methodName = GetGetterName ascii (fc_FieldName fc) (IsBooleanType fc)
      in ''    public '' @ fc_JavaType fc @ '' '' @ methodName @ ''() {\<newline>''
         @ ''        return this.'' @ fc_FieldName fc @ '';\<newline>''
         @ ''    }\<newline>'')"

definition GenerateSetter :: "FieldContext \<Rightarrow> string" where
  "GenerateSetter fc =
     (let methodName = GetSetterName ascii (fc_FieldName fc)
      in ''    public void '' @ methodName @ ''('' @ fc_JavaType fc @ '' '' @ fc_FieldName fc
         @ '') {\<newline>''
         @ ''        this.'' @ fc_FieldName fc @ '' = '' @ fc_FieldName fc @ '';\<newline>''
         @ ''    }\<newline>'')"

definition GenerateInterfaceMethod ::
  "TypeContext \<Rightarrow> FieldDef \<Rightarrow> Error + (string \<times> TypeContext)" where
  "GenerateInterfaceMethod tc field =
     (case NewFieldContext tc field of
        Inl err \<Rightarrow> Inl err
      | Inr fc \<Rightarrow>
          if Field_ShouldSkip fc then Inr ([], tc)
          else
            (let tc1 = add_imports tc (fc_Imports fc);
                 doc = (if fd_Description field \<noteq> []
                        then generateJavadoc (fd_Description field) ''    '' else []);
                 deprecated = fst (GenerateDeprecatedAnnotation (fd_Directives field));
                 dep = (if deprecated \<noteq> [] then ''    '' @ deprecated @ ''\<newline>'' else []);
                 methodName = GetGetterName ascii (fc_FieldName fc) (IsBooleanType fc)
             in Inr (doc @ dep @ ''    '' @ fc_JavaType fc @ '' '' @ methodName @ ''();\<newline>'',
                     tc1)))"

section \<open>Per-type generators\<close>

text \<open>
  The list of implemented or extended interfaces, with the loop index \<open>i\<close> that decides
  on the separator.
\<close>

fun interfaces_loop :: "nat \<Rightarrow> string \<Rightarrow> string list \<Rightarrow> string" where
  "interfaces_loop i prefix0 [] = []"
| "interfaces_loop i prefix0 (iface # rest) =
     (if 0 < i then '', '' else [])
     @ (if prefix0 \<noteq> [] then prefix0 @ iface else iface)
     @ interfaces_loop (Suc i) prefix0 rest"

text \<open>
  The final splice of every generator: the text before the placeholder offset, the import
  block with a blank line when there is one, and the rest.
\<close>

definition splice_imports :: "string \<Rightarrow> nat \<Rightarrow> ImportManager \<Rightarrow> string" where
  "splice_imports sb importPlaceholder m =
     (let imps = GenerateImportBlock m
      in take importPlaceholder sb
         @ (if imps \<noteq> [] then imps @ ''\<newline>'' else [])
         @ drop importPlaceholder sb)"

subsection \<open>Classes\<close>

definition generateClassAnnotations :: "TypeContext \<Rightarrow> string list \<times> TypeContext" where
  "generateClassAnnotations tc =
     (let cfg = ctx_Config (tc_Context tc);
          deprecated = fst (GenerateDeprecatedAnnotation (td_Directives (tc_TypeDef tc)));
          annotations0 = (if deprecated \<noteq> [] then [deprecated] else []);
          lombok = Lombok_GenerateTypeAnnotations (cf_Features_Lombok cfg) (tc_TypeDef tc);
          tc1 = add_imports tc (snd lombok);
          validation = Validation_GenerateTypeAnnotations (cf_Features_Validation cfg)
                         (tc_TypeDef tc);
          tc2 = add_imports tc1 (snd validation);
          custom = extractAnnotations (td_Directives (tc_TypeDef tc));
          tc3 = add_imports tc2 (snd custom)
      in (annotations0 @ fst lombok @ fst validation @ fst custom, tc3))"

text \<open>
  The loop over the fields of a class. Its state is the text written so far, the type
  context (for the imports) and the field contexts kept; an error of
  \<^verbatim>\<open>NewFieldContext\<close> ends the generation of the type.
\<close>

fun class_fields_loop ::
  "TypeDef \<Rightarrow> FieldDef list \<Rightarrow> string \<times> TypeContext \<times> FieldContext list \<Rightarrow>
   Error + (string \<times> TypeContext \<times> FieldContext list)" where
  "class_fields_loop typeDef [] st = Inr st"
| "class_fields_loop typeDef (field # rest) (sb, tc, fieldContexts) =
     (case NewFieldContext tc field of
        Inl err \<Rightarrow>
          Inl (GenerateError ''failed to create field context'' (Some err)
                 (td_Name typeDef) (fd_Name field))
      | Inr fc \<Rightarrow>
          if Field_ShouldSkip fc then class_fields_loop typeDef rest (sb, tc, fieldContexts)
          else (case GenerateField tc fc of
                  (fieldCode, tc1) \<Rightarrow>
                    class_fields_loop typeDef rest
                      (sb @ fieldCode @ ''\<newline>'', tc1, fieldContexts @ [fc])))"

definition accessors :: "FieldContext list \<Rightarrow> string" where
  "accessors fieldContexts =
     concat (map (\<lambda>fc. GenerateGetter fc @ ''\<newline>'' @ GenerateSetter fc @ ''\<newline>'')
               fieldContexts)"

definition Class_Generate :: "Context \<Rightarrow> TypeDef \<Rightarrow> Error + string" where
  "Class_Generate ctx typeDef =
     (let tc = NewTypeContext ctx typeDef
      in if Type_ShouldSkip tc then Inr []
         else
           (let cfg = ctx_Config ctx;
                sb0 = ''package '' @ cf_Output_Package cfg @ '';\<newline>\<newline>'';
                importPlaceholder = length sb0;
                (classAnnotations, tc1) = generateClassAnnotations tc;
                sb1 = sb0
                  @ (if td_Description typeDef \<noteq> []
                     then generateJavadoc (td_Description typeDef) [] else [])
                  @ write_annotations [] classAnnotations
                  @ ''public class '' @ tc_TypeName tc1
                  @ (if 0 < length (td_Interfaces typeDef)
                     then '' implements ''
                          @ interfaces_loop 0 (nc_InterfacePrefix (jc_Naming (cf_Java cfg)))
                              (td_Interfaces typeDef)
                     else [])
                  @ '' {\<newline>\<newline>''
            in case class_fields_loop typeDef (td_Fields typeDef) (sb1, tc1, []) of
                 Inl err \<Rightarrow> Inl err
               | Inr (sb2, tc2, fieldContexts) \<Rightarrow>
                   (let sb3 = sb2
                          @ (if NeedsGettersSetters (cf_Features_Lombok cfg)
                                \<and> 0 < length fieldContexts
                             then accessors fieldContexts else [])
                          @ ''}\<newline>''
                    in Inr (splice_imports sb3 importPlaceholder (tc_Imports tc2)))))"

subsection \<open>Interfaces\<close>

definition generateInterfaceAnnotations :: "TypeContext \<Rightarrow> string list \<times> TypeContext" where
  "generateInterfaceAnnotations tc =
     (let deprecated = fst (GenerateDeprecatedAnnotation (td_Directives (tc_TypeDef tc)));
          annotations0 = (if deprecated \<noteq> [] then [deprecated] else []);
          custom = extractAnnotations (td_Directives (tc_TypeDef tc));
          tc1 = add_imports tc (snd custom)
      in (annotations0 @ fst custom, tc1))"

fun interface_methods_loop ::
  "TypeDef \<Rightarrow> FieldDef list \<Rightarrow> string \<times> TypeContext \<Rightarrow> Error + (string \<times> TypeContext)" where
  "interface_methods_loop typeDef [] st = Inr st"
| "interface_methods_loop typeDef (field # rest) (sb, tc) =
     (case GenerateInterfaceMethod tc field of
        Inl err \<Rightarrow>
          Inl (GenerateError ''failed to generate interface method'' (Some err)
                 (td_Name typeDef) (fd_Name field))
      | Inr (methodCode, tc1) \<Rightarrow>
          interface_methods_loop typeDef rest
            (if methodCode \<noteq> [] then sb @ methodCode @ ''\<newline>'' else sb, tc1))"

definition Interface_Generate :: "Context \<Rightarrow> TypeDef \<Rightarrow> Error + string" where
  "Interface_Generate ctx typeDef =
     (let tc = NewTypeContext ctx typeDef
      in if Type_ShouldSkip tc then Inr []
         else
           (let cfg = ctx_Config ctx;
                sb0 = ''package '' @ cf_Output_Package cfg @ '';\<newline>\<newline>'';
                importPlaceholder = length sb0;
                (interfaceAnnotations, tc1) = generateInterfaceAnnotations tc;
                sb1 = sb0
                  @ (if td_Description typeDef \<noteq> []
                     then generateJavadoc (td_Description typeDef) [] else [])
                  @ write_annotations [] interfaceAnnotations
                  @ ''public interface '' @ tc_TypeName tc1
                  @ (if 0 < length (td_Interfaces typeDef)
                     then '' extends ''
                          @ interfaces_loop 0 (nc_InterfacePrefix (jc_Naming (cf_Java cfg)))
                              (td_Interfaces typeDef)
                     else [])
                  @ '' {\<newline>\<newline>''
            in case interface_methods_loop typeDef (td_Fields typeDef) (sb1, tc1) of
                 Inl err \<Rightarrow> Inl err
               | Inr (sb2, tc2) \<Rightarrow>
                   Inr (splice_imports (sb2 @ ''}\<newline>'') importPlaceholder (tc_Imports tc2))))"

subsection \<open>Enums\<close>

definition generateEnumAnnotations :: "TypeContext \<Rightarrow> string list \<times> TypeContext" where
  "generateEnumAnnotations tc =
     (let deprecated = fst (GenerateDeprecatedAnnotation (td_Directives (tc_TypeDef tc)));
          annotations0 = (if deprecated \<noteq> [] then [deprecated] else []);
          custom = extractAnnotations (td_Directives (tc_TypeDef tc));
          tc1 = add_imports tc (snd custom)
      in (annotations0 @ fst custom, tc1))"

definition generateValueAnnotations ::
  "TypeContext \<Rightarrow> EnumValueDef \<Rightarrow> string list \<times> TypeContext" where
  "generateValueAnnotations tc enumValue =
     (let deprecated = fst (GenerateDeprecatedAnnotation (ev_Directives enumValue));
          annotations0 = (if deprecated \<noteq> [] then [deprecated] else []);
          custom = extractAnnotations (ev_Directives enumValue);
          tc1 = add_imports tc (snd custom)
      in (annotations0 @ fst custom, tc1))"

text \<open>
  The loop over the enum values: \<open>i\<close> is the index of the value in
  \<^verbatim>\<open>typeDef.EnumValues\<close> and \<open>n\<close> the length of that slice, the two numbers the code
  compares to choose between the comma and the semicolon.
\<close>

fun enum_values_loop ::
  "nat \<Rightarrow> nat \<Rightarrow> EnumValueDef list \<Rightarrow> string \<times> TypeContext \<Rightarrow> string \<times> TypeContext" where
  "enum_values_loop i n [] st = st"
| "enum_values_loop i n (enumValue # rest) (sb, tc) =
     (if ExtractSkipDirective (ev_Directives enumValue) \<noteq> None
      then enum_values_loop (Suc i) n rest (sb, tc)
      else
        (let doc = (if ev_Description enumValue \<noteq> []
                    then generateJavadoc (ev_Description enumValue) ''    '' else []);
             (valueAnnotations, tc1) = generateValueAnnotations tc enumValue;
             valueName = GetEnumValueName enumValue
         in enum_values_loop (Suc i) n rest
              (sb @ doc @ write_annotations ''    '' valueAnnotations
                  @ ''    '' @ valueName
                  @ (if int i < int n - 1 then '',\<newline>'' else '';\<newline>''),
               tc1)))"

definition Enum_Generate :: "Context \<Rightarrow> TypeDef \<Rightarrow> Error + string" where
  "Enum_Generate ctx typeDef =
     (let tc = NewTypeContext ctx typeDef
      in if Type_ShouldSkip tc then Inr []
         else
           (let cfg = ctx_Config ctx;
                sb0 = ''package '' @ cf_Output_Package cfg @ '';\<newline>\<newline>'';
                importPlaceholder = length sb0;
                (enumAnnotations, tc1) = generateEnumAnnotations tc;
                sb1 = sb0
                  @ (if td_Description typeDef \<noteq> []
                     then generateJavadoc (td_Description typeDef) [] else [])
                  @ write_annotations [] enumAnnotations
                  @ ''public enum '' @ tc_TypeName tc1 @ '' {\<newline>''
            in case enum_values_loop 0 (length (td_EnumValues typeDef))
                      (td_EnumValues typeDef) (sb1, tc1) of
                 (sb2, tc2) \<Rightarrow>
                   Inr (splice_imports (sb2 @ ''}\<newline>'') importPlaceholder (tc_Imports tc2))))"

subsection \<open>Unions\<close>

definition Union_Generate :: "Context \<Rightarrow> TypeDef \<Rightarrow> Error + string" where
  "Union_Generate ctx typeDef =
     (let tc = NewTypeContext ctx typeDef
      in if Type_ShouldSkip tc then Inr []
         else Inr (''package '' @ cf_Output_Package (ctx_Config ctx) @ '';\<newline>\<newline>''
                   @ (if td_Description typeDef \<noteq> []
                      then generateJavadoc (td_Description typeDef) []
                      else ''/**\<newline>'' @ '' * Union type marker interface.\<newline>''
                           @ '' * Possible types: '' @ ''\<newline> */\<newline>'')
                   @ ''public interface '' @ tc_TypeName tc @ '' {\<newline>''
                   @ ''    // Marker interface for GraphQL union type\<newline>''
                   @ ''}\<newline>''))"

section \<open>Generation orchestrator\<close>

record GeneratedFile =
  gf_FileName :: string
  gf_Content :: string
  gf_TypeDef :: TypeDef

definition generateType :: "Context \<Rightarrow> TypeDef \<Rightarrow> Error + GeneratedFile option" where
  "generateType ctx typeDef =
     (let dispatched =
            (case td_Kind typeDef of
               TypeKindObject \<Rightarrow> Some (Class_Generate ctx typeDef)
             | TypeKindInputObject \<Rightarrow> Some (Class_Generate ctx typeDef)
             | TypeKindInterface \<Rightarrow> Some (Interface_Generate ctx typeDef)
             | TypeKindEnum \<Rightarrow> Some (Enum_Generate ctx typeDef)
             | TypeKindUnion \<Rightarrow> Some (Union_Generate ctx typeDef)
             | TypeKindScalar \<Rightarrow> None)
      in case dispatched of
           None \<Rightarrow> Inr None
         | Some (Inl err) \<Rightarrow> Inl err
         | Some (Inr content) \<Rightarrow>
             if content = [] then Inr None
             else Inr (Some \<lparr>gf_FileName =
                                GetTypeName (jc_Naming (cf_Java (ctx_Config ctx))) typeDef
                                @ ''.java'',
                              gf_Content = content, gf_TypeDef = typeDef\<rparr>))"

text \<open>
  The loop of \<^verbatim>\<open>Generate\<close> over \<^verbatim>\<open>schema.Types\<close>: an error is collected and the
  loop goes on with the next type. The call \<^verbatim>\<open>g.generateType(ctx, typeDef)\<close> of the loop
  body is the first argument \<open>gen\<close>, applied to the type; \<^verbatim>\<open>Generate\<close> and
  \<^verbatim>\<open>GenerateWithResult\<close> pass the generator's own \<open>generateType ctx\<close>. The context is
  only read by the per-type generators, so one function serves every iteration.
\<close>

fun generate_loop ::
  "(TypeDef \<Rightarrow> Error + GeneratedFile option) \<Rightarrow> TypeDef list \<Rightarrow>
   GeneratedFile list \<times> Error list \<Rightarrow> GeneratedFile list \<times> Error list" where
  "generate_loop gen [] st = st"
| "generate_loop gen (typeDef # rest) (files, errs) =
     (case gen typeDef of
        Inl err \<Rightarrow> generate_loop gen rest (files, errs @ [err])
      | Inr None \<Rightarrow> generate_loop gen rest (files, errs)
      | Inr (Some file) \<Rightarrow> generate_loop gen rest (files @ [file], errs))"

definition Generate :: "Config \<Rightarrow> Schema \<Rightarrow> GeneratedFile list \<times> Error option" where
  "Generate config schema =
     (let ctx = NewContext config schema
      in case generate_loop (generateType ctx) (map snd (sc_Types schema)) ([], []) of
           (files, errs) \<Rightarrow> (files, ToError errs))"

text \<open>\<^verbatim>\<open>GenerateWithResult\<close>: the same loop, returning the list of errors itself.\<close>

definition GenerateWithResult :: "Config \<Rightarrow> Schema \<Rightarrow> GeneratedFile list \<times> Error list" where
  "GenerateWithResult config schema =
     generate_loop (generateType (NewContext config schema)) (map snd (sc_Types schema))
       ([], [])"

definition GenerateType :: "Config \<Rightarrow> Schema \<Rightarrow> string \<Rightarrow> Error + GeneratedFile option" where
  "GenerateType config schema typeName =
     (case GetType schema typeName of
        None \<Rightarrow> Inl (GenerateError (''type not found: '' @ typeName) None [] [])
      | Some typeDef \<Rightarrow> generateType (NewContext config schema) typeDef)"

section \<open>Notions used by the properties\<close>

text \<open>A string of ASCII bytes, and a list of ASCII runes.\<close>

definition is_ascii :: "string \<Rightarrow> bool" where
  "is_ascii s = list_all (\<lambda>c. (of_char c :: int) < 128) s"

definition ascii_runes :: "rune list \<Rightarrow> bool" where
  "ascii_runes rs = list_all (\<lambda>r. 0 \<le> r \<and> r < 128) rs"

text \<open>
  What is used of Go's conversions and case mapping: on ASCII text they are the ASCII
  ones. (Go's \<^verbatim>\<open>unicode.ToUpper\<close>, \<^verbatim>\<open>unicode.ToLower\<close> and \<^verbatim>\<open>unicode.IsUpper\<close>
  take the ASCII path for a rune below 128, \<^verbatim>\<open>strings.ToLower\<close> maps a string of
  ASCII bytes byte by byte, and UTF-8 encodes a rune below 128 as the byte of that value.)
\<close>

definition ascii_compatible :: "Unicode \<Rightarrow> bool" where
  "ascii_compatible U \<longleftrightarrow>
     (\<forall>s. is_ascii s \<longrightarrow>
        runes_of U s = runes_of ascii s \<and> strings_ToLower U s = strings_ToLower ascii s)
     \<and> (\<forall>rs. ascii_runes rs \<longrightarrow> string_of U rs = string_of ascii rs)
     \<and> (\<forall>r. 0 \<le> r \<and> r < 128 \<longrightarrow>
          unicode_ToUpper U r = ascii_ToUpper r \<and> unicode_ToLower U r = ascii_ToLower r
          \<and> unicode_IsUpper U r = ascii_IsUpper r)"

text \<open>The ASCII case mapping on a byte.\<close>

definition lower_byte :: "char \<Rightarrow> char" where
  "lower_byte c = char_of (ascii_ToLower (of_char c))"

definition upper_byte :: "char \<Rightarrow> char" where
  "upper_byte c = char_of (ascii_ToUpper (of_char c))"

text \<open>
  What the claim calls an identifier in snake_case: a non-empty name of lowercase letters,
  digits and underscores that does not start with a digit. A name with a leading
  underscore such as \<^verbatim>\<open>_id\<close> or \<^verbatim>\<open>_user_name\<close> is included: it is a legal GraphQL
  name, and \<^verbatim>\<open>toCamelCase\<close> treats every name with an underscore as snake_case
  input.
\<close>

definition snake_char :: "char \<Rightarrow> bool" where
  "snake_char c =
     (CHR ''a'' \<le> c \<and> c \<le> CHR ''z'' \<or> CHR ''0'' \<le> c \<and> c \<le> CHR ''9'' \<or> c = CHR ''_'')"

definition is_snake_case :: "string \<Rightarrow> bool" where
  "is_snake_case s =
     (case s of
        [] \<Rightarrow> False
      | c # cs \<Rightarrow> snake_char c \<and> \<not> (CHR ''0'' \<le> c \<and> c \<le> CHR ''9'') \<and> list_all snake_char cs)"

text \<open>The import manager after a sequence of calls on a fresh accumulator.\<close>

definition accumulated :: "string \<Rightarrow> import_call list \<Rightarrow> ImportManager" where
  "accumulated pkg calls = run_calls (NewImportManager pkg) calls"

text \<open>
  An import the accumulator must not hold: the empty string, a type directly in
  \<^verbatim>\<open>java.lang\<close>, or (for a non-empty output package) a type directly in the output
  package.
\<close>

definition import_ok :: "string \<Rightarrow> string \<Rightarrow> bool" where
  "import_ok pkg imp \<longleftrightarrow>
     imp \<noteq> [] \<and>
     \<not> (\<exists>x. imp = ''java.lang.'' @ x \<and> CHR ''.'' \<notin> set x) \<and>
     (pkg \<noteq> [] \<longrightarrow> \<not> (\<exists>cls. imp = pkg @ ''.'' @ cls \<and> CHR ''.'' \<notin> set cls))"

text \<open>The import lines of the groups, one blank line between two groups.\<close>

fun join_groups :: "string list list \<Rightarrow> string" where
  "join_groups [] = []"
| "join_groups [g] = concat (map import_line g)"
| "join_groups (g # h # gs) = concat (map import_line g) @ ''\<newline>'' @ join_groups (h # gs)"

definition same_prefix :: "string list \<Rightarrow> bool" where
  "same_prefix g = (\<forall>a\<in>set g. \<forall>b\<in>set g. getImportPrefix a = getImportPrefix b)"

text \<open>
  The type mapper as \<^verbatim>\<open>NewContext\<close> sets it up: built from the configuration, then
  given the schema's types.
\<close>

definition mapper :: "Config \<Rightarrow> (string \<rightharpoonup> TypeDef) \<Rightarrow> TypeMapper" where
  "mapper cfg types = SetSchemaTypes (NewTypeMapper cfg) types"

text \<open>The default configuration with a nullability policy and scalar overrides.\<close>

definition config_with :: "string \<Rightarrow> (string \<rightharpoonup> ScalarMapping) \<Rightarrow> Config" where
  "config_with policy overrides =
     DefaultConfig\<lparr>cf_Java := (cf_Java DefaultConfig)\<lparr>jc_NullableHandling := policy\<rparr>,
                   cf_TypeMappings_Scalars := overrides\<rparr>"

text \<open>A named type reference, nullable or non-null.\<close>

definition named :: "string \<Rightarrow> bool \<Rightarrow> TypeRef" where
  "named name nonNull = TypeRef name None nonNull"

text \<open>
  What one type contributes to a run with the per-type generation \<open>gen\<close>: its generated
  file, or its error.
\<close>

definition produced ::
  "(TypeDef \<Rightarrow> Error + GeneratedFile option) \<Rightarrow> TypeDef \<Rightarrow> GeneratedFile option" where
  "produced gen t = (case gen t of Inr (Some file) \<Rightarrow> Some file | _ \<Rightarrow> None)"

definition failed ::
  "(TypeDef \<Rightarrow> Error + GeneratedFile option) \<Rightarrow> TypeDef \<Rightarrow> Error option" where
  "failed gen t = (case gen t of Inl err \<Rightarrow> Some err | _ \<Rightarrow> None)"

text \<open>
  A per-type generation that fails with the given error on the type of the given name and
  is \<open>gen\<close> on every other type.
\<close>

definition failing_on ::
  "string \<Rightarrow> Error \<Rightarrow> (TypeDef \<Rightarrow> Error + GeneratedFile option) \<Rightarrow>
   TypeDef \<Rightarrow> Error + GeneratedFile option" where
  "failing_on name err gen t = (if td_Name t = name then Inl err else gen t)"

text \<open>A type that yields a file: not a scalar and not skipped.\<close>

definition generated_kind :: "TypeDef \<Rightarrow> bool" where
  "generated_kind t =
     (td_Kind t \<noteq> TypeKindScalar \<and> ExtractSkipDirective (td_Directives t) = None)"

text \<open>Small schema values for the concrete instances below.\<close>

definition skip_directive :: DirectiveDef where
  "skip_directive = \<lparr>dd_Name = ''skip'', dd_Arguments = Map.empty\<rparr>"

definition enum_value :: "string \<Rightarrow> DirectiveDef list \<Rightarrow> EnumValueDef" where
  "enum_value name ds = \<lparr>ev_Name = name, ev_Description = [], ev_Directives = ds\<rparr>"

definition enum_type :: "string \<Rightarrow> EnumValueDef list \<Rightarrow> TypeDef" where
  "enum_type name vs =
     \<lparr>td_Name = name, td_Kind = TypeKindEnum, td_Description = [], td_Fields = [],
      td_EnumValues = vs, td_Interfaces = [], td_Directives = []\<rparr>"

definition field_of :: "string \<Rightarrow> TypeRef \<Rightarrow> DirectiveDef list \<Rightarrow> FieldDef" where
  "field_of name t ds = \<lparr>fd_Name = name, fd_Description = [], fd_Type = Some t, fd_Directives = ds\<rparr>"

definition object_type :: "string \<Rightarrow> FieldDef list \<Rightarrow> DirectiveDef list \<Rightarrow> TypeDef" where
  "object_type name fs ds =
     \<lparr>td_Name = name, td_Kind = TypeKindObject, td_Description = [], td_Fields = fs,
      td_EnumValues = [], td_Interfaces = [], td_Directives = ds\<rparr>"

definition schema_of :: "TypeDef list \<Rightarrow> Schema" where
  "schema_of ts = \<lparr>sc_Types = map (\<lambda>t. (td_Name t, t)) ts\<rparr>"

text \<open>The fields of a type that do not carry the skip directive.\<close>

definition without_skipped_fields :: "TypeDef \<Rightarrow> TypeDef" where
  "without_skipped_fields typeDef =
     typeDef\<lparr>td_Fields :=
       filter (\<lambda>f. ExtractSkipDirective (fd_Directives f) = None) (td_Fields typeDef)\<rparr>"

text \<open>
  Two type contexts that agree on everything the field loop reads: the generation context
  and the imports accumulated so far.
\<close>

definition same_state :: "TypeContext \<Rightarrow> TypeContext \<Rightarrow> bool" where
  "same_state tc tc2 = (tc_Context tc = tc_Context tc2 \<and> tc_Imports tc = tc_Imports tc2)"

text \<open>
  The text of a class before its fields, and the completion of the text after them, as
  \<^const>\<open>Class_Generate\<close> builds them.
\<close>

definition class_header :: "Context \<Rightarrow> TypeDef \<Rightarrow> string list \<Rightarrow> string \<Rightarrow> string" where
  "class_header ctx typeDef classAnnotations typeName =
     ''package '' @ cf_Output_Package (ctx_Config ctx) @ '';\<newline>\<newline>''
     @ (if td_Description typeDef \<noteq> []
        then generateJavadoc (td_Description typeDef) [] else [])
     @ write_annotations [] classAnnotations
     @ ''public class '' @ typeName
     @ (if 0 < length (td_Interfaces typeDef)
        then '' implements ''
             @ interfaces_loop 0 (nc_InterfacePrefix (jc_Naming (cf_Java (ctx_Config ctx))))
                 (td_Interfaces typeDef)
        else [])
     @ '' {\<newline>\<newline>''"

definition class_footer ::
  "Context \<Rightarrow> string \<Rightarrow> ImportManager \<Rightarrow> FieldContext list \<Rightarrow> string" where
  "class_footer ctx sb2 imps fieldContexts =
     splice_imports
       (sb2
        @ (if NeedsGettersSetters (cf_Features_Lombok (ctx_Config ctx))
              \<and> 0 < length fieldContexts
           then accessors fieldContexts else [])
        @ ''}\<newline>'')
       (length (''package '' @ cf_Output_Package (ctx_Config ctx) @ '';\<newline>\<newline>''))
       imps"

section \<open>Lemmas about the string functions\<close>

lemma of_char_int: "(of_char c :: int) = int (of_char c)"
  by (simp add: of_nat_of_char)

lemma of_char_int_bounds: "0 \<le> (of_char c :: int)" "(of_char c :: int) < 256"
proof -
  have "(of_char c :: nat) < 256" by simp
  then show "0 \<le> (of_char c :: int)" "(of_char c :: int) < 256"
    unfolding of_char_int by simp_all
qed

lemma of_char_char_of_int: "0 \<le> r \<Longrightarrow> r < 256 \<Longrightarrow> (of_char (char_of r) :: int) = r"
  by (simp add: of_char_of)

lemma of_char_lower_byte: "(of_char (lower_byte c) :: int) = ascii_ToLower (of_char c)"
  unfolding lower_byte_def
  using of_char_int_bounds [of c]
  by (intro of_char_char_of_int) (simp_all add: ascii_ToLower_def)

lemma of_char_upper_byte: "(of_char (upper_byte c) :: int) = ascii_ToUpper (of_char c)"
  unfolding upper_byte_def
  using of_char_int_bounds [of c]
  by (intro of_char_char_of_int) (simp_all add: ascii_ToUpper_def)

lemma ascii_ToLower_idem: "ascii_ToLower (ascii_ToLower r) = ascii_ToLower r"
  by (simp add: ascii_ToLower_def)

lemma char_eq_of_char: "c = d \<longleftrightarrow> (of_char c :: int) = of_char d"
  by (metis char_of_char)

lemma lower_byte_idem: "lower_byte (lower_byte c) = lower_byte c"
  by (simp add: char_eq_of_char [of "lower_byte (lower_byte c)"] of_char_lower_byte
      ascii_ToLower_idem)

lemma lower_byte_eq_underscore [simp]:
  "lower_byte c = CHR ''_'' \<longleftrightarrow> c = CHR ''_''"
  "CHR ''_'' = lower_byte c \<longleftrightarrow> c = CHR ''_''"
  by (auto simp: char_eq_of_char [of _ "CHR ''_''"] char_eq_of_char [of "CHR ''_''"]
      of_char_lower_byte ascii_ToLower_def)

lemma upper_byte_eq_underscore [simp]:
  "upper_byte c = CHR ''_'' \<longleftrightarrow> c = CHR ''_''"
  "CHR ''_'' = upper_byte c \<longleftrightarrow> c = CHR ''_''"
  by (auto simp: char_eq_of_char [of _ "CHR ''_''"] char_eq_of_char [of "CHR ''_''"]
      of_char_upper_byte ascii_ToUpper_def)

lemma lower_byte_of_underscore [simp]: "lower_byte (CHR ''_'') = CHR ''_''"
  by simp

lemma upper_byte_of_underscore [simp]: "upper_byte (CHR ''_'') = CHR ''_''"
  by simp

lemma ascii_ToLower_of_char:
  "(of_char c :: int) < 128 \<Longrightarrow>
   0 \<le> ascii_ToLower (of_char c) \<and> ascii_ToLower (of_char c) < 128"
  using of_char_int_bounds(1) [of c] by (simp add: ascii_ToLower_def)

lemma ascii_ToUpper_of_char:
  "(of_char c :: int) < 128 \<Longrightarrow>
   0 \<le> ascii_ToUpper (of_char c) \<and> ascii_ToUpper (of_char c) < 128"
  using of_char_int_bounds(1) [of c] by (simp add: ascii_ToUpper_def)

lemma lower_byte_ascii: "(of_char c :: int) < 128 \<Longrightarrow> (of_char (lower_byte c) :: int) < 128"
  by (simp add: of_char_lower_byte ascii_ToLower_of_char)

lemma upper_byte_ascii: "(of_char c :: int) < 128 \<Longrightarrow> (of_char (upper_byte c) :: int) < 128"
  by (simp add: of_char_upper_byte ascii_ToUpper_of_char)

lemma HasPrefix_prefix: "HasPrefix s p \<longleftrightarrow> prefix p s"
  unfolding HasPrefix_def prefix_def
  by (metis append_eq_conv_conj append_take_drop_id length_append le_add1)

lemma Contains_char: "Contains s [c] \<longleftrightarrow> c \<in> set s"
  by (induction s) (auto simp: HasPrefix_def)

lemma Split_not_Nil: "Split s sep \<noteq> []"
  by (induction s) (auto split: list.splits)

lemma Split_no_sep: "p \<in> set (Split s sep) \<Longrightarrow> sep \<notin> set p"
  by (induction s arbitrary: p) (auto split: if_splits list.splits)

lemma Split_Cons_other:
  "c \<noteq> sep \<Longrightarrow> \<exists>p ps. Split (c # cs) sep = (c # p) # ps"
  using Split_not_Nil [of cs sep] by (cases "Split cs sep") auto

lemma SplitN_not_Nil: "SplitN s sep (Suc n) \<noteq> []"
  by (induction s sep "Suc n" arbitrary: n rule: SplitN.induct) (auto split: list.splits)

lemma SplitN_single: "SplitN s sep (Suc (Suc n)) = [p] \<Longrightarrow> p = s"
proof (induction s arbitrary: p)
  case Nil
  then show ?case by simp
next
  case (Cons c cs)
  show ?case
  proof (cases "c = sep")
    case True
    with Cons.prems SplitN_not_Nil [of cs sep n] show ?thesis by simp
  next
    case False
    with Cons.prems SplitN_not_Nil [of cs sep "Suc n"]
    obtain q where "SplitN cs sep (Suc (Suc n)) = [q]" "p = c # q"
      by (auto split: list.splits)
    with Cons.IH show ?thesis by simp
  qed
qed

lemma LastIndex_absent: "sep \<notin> set s \<Longrightarrow> LastIndex s sep = -1"
  by (induction s) (auto simp: Let_def)

lemma LastIndex_last_sep:
  "sep \<notin> set cls \<Longrightarrow> LastIndex (p @ sep # cls) sep = int (length p)"
  by (induction p) (auto simp: Let_def LastIndex_absent)

lemma Split_subset: "p \<in> set (Split s sep) \<Longrightarrow> set p \<subseteq> set s"
proof (induction s arbitrary: p)
  case Nil
  then show ?case by simp
next
  case (Cons c cs)
  show ?case
  proof (cases "c = sep")
    case True
    with Cons.prems have "p = [] \<or> p \<in> set (Split cs sep)" by simp
    with Cons.IH [of p] show ?thesis by auto
  next
    case False
    obtain q qs where sp: "Split cs sep = q # qs"
      using Split_not_Nil [of cs sep] by (cases "Split cs sep") auto
    with False Cons.prems have "p = c # q \<or> p \<in> set qs" by simp
    moreover have "set q \<subseteq> set cs" using Cons.IH [of q] sp by simp
    moreover have "p \<in> set qs \<Longrightarrow> set p \<subseteq> set cs" using Cons.IH [of p] sp by simp
    ultimately show ?thesis by auto
  qed
qed

section \<open>Naming helper: the conversion on ASCII names\<close>

lemma strings_ToLower_ascii: "strings_ToLower ascii s = map lower_byte s"
  by (simp add: ascii_def lower_byte_def)

lemma runes_of_ascii: "runes_of ascii s = map of_char s"
  by (simp add: ascii_def)

lemma string_of_ascii: "string_of ascii rs = map char_of rs"
  by (simp add: ascii_def)

lemma string_of_runes_of_ascii: "map char_of (map of_char cs :: int list) = (cs :: string)"
  by (induction cs) simp_all

lemma capitalizeFirst_Nil: "capitalizeFirst U [] = []"
  by (simp add: capitalizeFirst_def)

lemma capitalizeFirst_ascii: "capitalizeFirst ascii (c # cs) = upper_byte c # cs"
  by (simp add: capitalizeFirst_def ascii_def upper_byte_def string_of_runes_of_ascii)

lemma toCamelCase_ascii_plain:
  "CHR ''_'' \<notin> set (c # cs) \<Longrightarrow> toCamelCase ascii (c # cs) = lower_byte c # cs"
  by (simp add: toCamelCase_def Contains_char ascii_def lower_byte_def
      string_of_runes_of_ascii del: Contains.simps)

lemma strings_ToLower_no_underscore:
  "CHR ''_'' \<notin> set p \<Longrightarrow> CHR ''_'' \<notin> set (strings_ToLower ascii p)"
  by (auto simp: strings_ToLower_ascii)

lemma capitalizeFirst_no_underscore:
  "CHR ''_'' \<notin> set p \<Longrightarrow> CHR ''_'' \<notin> set (capitalizeFirst ascii p)"
  by (cases p) (auto simp: capitalizeFirst_Nil capitalizeFirst_ascii)

lemma camel_parts_Cons: "camel_parts U (c # r) ps = c # camel_parts U r ps"
  by (induction ps arbitrary: r) auto

lemma camel_parts_no_underscore:
  "CHR ''_'' \<notin> set r \<Longrightarrow> (\<And>p. p \<in> set ps \<Longrightarrow> CHR ''_'' \<notin> set p) \<Longrightarrow>
   CHR ''_'' \<notin> set (camel_parts ascii r ps)"
proof (induction ps arbitrary: r)
  case Nil
  then show ?case by simp
next
  case (Cons p ps)
  have "CHR ''_'' \<notin> set (capitalizeFirst ascii (strings_ToLower ascii p))"
    using Cons.prems(2) [of p]
    by (simp add: strings_ToLower_no_underscore capitalizeFirst_no_underscore)
  with Cons.prems(1)
  have "CHR ''_'' \<notin> set (if p \<noteq> [] then r @ capitalizeFirst ascii (strings_ToLower ascii p)
                            else r)"
    by simp
  then show ?case
    using Cons.IH Cons.prems(2) by simp
qed

text \<open>
  For a name that does not start with an underscore, the result of \<^const>\<open>toCamelCase\<close>
  is the lowercased first byte followed by text free of underscores.
\<close>

lemma toCamelCase_shape:
  assumes "c \<noteq> CHR ''_''"
  shows "\<exists>rest. toCamelCase ascii (c # cs) = lower_byte c # rest \<and> CHR ''_'' \<notin> set rest"
proof (cases "CHR ''_'' \<in> set (c # cs)")
  case False
  then have "toCamelCase ascii (c # cs) = lower_byte c # cs"
    by (rule toCamelCase_ascii_plain)
  with False show ?thesis by simp
next
  case True
  from assms obtain p ps where sp: "Split (c # cs) (CHR ''_'') = (c # p) # ps"
    using Split_Cons_other by blast
  have parts: "\<And>q. q \<in> set ((c # p) # ps) \<Longrightarrow> CHR ''_'' \<notin> set q"
    using Split_no_sep [of _ "c # cs" "CHR ''_''"] unfolding sp by blast
  have "CHR ''_'' \<notin> set (strings_ToLower ascii p)"
    using parts [of "c # p"] by (simp add: strings_ToLower_no_underscore)
  then have "CHR ''_'' \<notin> set (camel_parts ascii (strings_ToLower ascii p) ps)"
    using parts by (intro camel_parts_no_underscore) auto
  moreover from True
  have "toCamelCase ascii (c # cs) = lower_byte c # camel_parts ascii (strings_ToLower ascii p) ps"
    by (simp add: toCamelCase_def Contains_char sp strings_ToLower_ascii camel_parts_Cons
        del: Contains.simps Split.simps)
  ultimately show ?thesis by simp
qed

lemma toCamelCase_ascii_idem:
  assumes "c \<noteq> CHR ''_''"
  shows "toCamelCase ascii (toCamelCase ascii (c # cs)) = toCamelCase ascii (c # cs)"
proof -
  from assms obtain rest where
    eq: "toCamelCase ascii (c # cs) = lower_byte c # rest" and no: "CHR ''_'' \<notin> set rest"
    using toCamelCase_shape by blast
  from assms no have "CHR ''_'' \<notin> set (lower_byte c # rest)" by simp
  then have "toCamelCase ascii (lower_byte c # rest) = lower_byte (lower_byte c) # rest"
    by (rule toCamelCase_ascii_plain)
  then show ?thesis by (simp add: eq lower_byte_idem)
qed

section \<open>Naming helper: a library that is the ASCII one on ASCII text\<close>

lemma is_ascii_Cons: "is_ascii (c # cs) \<longleftrightarrow> (of_char c :: int) < 128 \<and> is_ascii cs"
  by (simp add: is_ascii_def)

lemma is_ascii_append: "is_ascii (r @ s) \<longleftrightarrow> is_ascii r \<and> is_ascii s"
  by (simp add: is_ascii_def)

lemma is_ascii_strings_ToLower: "is_ascii s \<Longrightarrow> is_ascii (strings_ToLower ascii s)"
  by (induction s)
    (simp_all add: strings_ToLower_ascii is_ascii_def lower_byte_ascii)

lemma is_ascii_capitalizeFirst: "is_ascii s \<Longrightarrow> is_ascii (capitalizeFirst ascii s)"
  by (cases s)
    (simp_all add: capitalizeFirst_Nil capitalizeFirst_ascii is_ascii_def upper_byte_ascii)

lemma is_ascii_camel_parts:
  "is_ascii r \<Longrightarrow> (\<And>p. p \<in> set ps \<Longrightarrow> is_ascii p) \<Longrightarrow> is_ascii (camel_parts ascii r ps)"
proof (induction ps arbitrary: r)
  case Nil
  then show ?case by simp
next
  case (Cons p ps)
  have "is_ascii (capitalizeFirst ascii (strings_ToLower ascii p))"
    using Cons.prems(2) [of p] by (simp add: is_ascii_strings_ToLower is_ascii_capitalizeFirst)
  with Cons.prems(1)
  have "is_ascii (if p \<noteq> [] then r @ capitalizeFirst ascii (strings_ToLower ascii p) else r)"
    by (simp add: is_ascii_append)
  then show ?case
    using Cons.IH Cons.prems(2) by simp
qed

lemma is_ascii_Split: "is_ascii s \<Longrightarrow> p \<in> set (Split s sep) \<Longrightarrow> is_ascii p"
  using Split_subset [of p s sep] by (auto simp: is_ascii_def list_all_iff)

lemma is_ascii_toCamelCase: "is_ascii s \<Longrightarrow> is_ascii (toCamelCase ascii s)"
proof (cases s)
  case Nil
  then show ?thesis by (simp add: toCamelCase_def is_ascii_def)
next
  case (Cons c cs)
  assume a: "is_ascii s"
  show ?thesis
  proof (cases "CHR ''_'' \<in> set s")
    case False
    with Cons have "toCamelCase ascii s = lower_byte c # cs"
      by (simp add: toCamelCase_ascii_plain)
    with a Cons show ?thesis
      by (simp add: is_ascii_Cons lower_byte_ascii)
  next
    case True
    obtain p0 ps where sp: "Split s (CHR ''_'') = p0 # ps"
      using Split_not_Nil [of s "CHR ''_''"] by (cases "Split s (CHR ''_'')") auto
    have parts: "\<And>q. q \<in> set (p0 # ps) \<Longrightarrow> is_ascii q"
      using is_ascii_Split [OF a, of _ "CHR ''_''"] unfolding sp by blast
    have "is_ascii (camel_parts ascii (strings_ToLower ascii p0) ps)"
      using parts by (intro is_ascii_camel_parts is_ascii_strings_ToLower) auto
    moreover from Cons have "s \<noteq> []" by simp
    with True have "toCamelCase ascii s = camel_parts ascii (strings_ToLower ascii p0) ps"
      by (simp add: toCamelCase_def Contains_char sp del: Contains.simps Split.simps)
    ultimately show ?thesis by simp
  qed
qed

lemma capitalizeFirst_transfer:
  assumes U: "ascii_compatible U" and a: "is_ascii s"
  shows "capitalizeFirst U s = capitalizeFirst ascii s"
proof (cases s)
  case Nil
  then show ?thesis by (simp add: capitalizeFirst_Nil)
next
  case (Cons c cs)
  from a Cons have c: "(of_char c :: int) < 128" and cs: "is_ascii cs"
    by (simp_all add: is_ascii_Cons)
  have r: "runes_of U s = of_char c # map of_char cs"
    using U a Cons by (simp add: ascii_compatible_def runes_of_ascii)
  have u: "unicode_ToUpper U (of_char c) = ascii_ToUpper (of_char c)"
    using U c of_char_int_bounds(1) [of c] by (simp add: ascii_compatible_def)
  have "ascii_runes (ascii_ToUpper (of_char c) # map of_char cs)"
    using c cs
    by (simp add: ascii_runes_def is_ascii_def list_all_iff ascii_ToUpper_of_char
        of_char_int_bounds)
  then have "string_of U (ascii_ToUpper (of_char c) # map of_char cs)
               = string_of ascii (ascii_ToUpper (of_char c) # map of_char cs)"
    using U by (simp add: ascii_compatible_def)
  with r u Cons show ?thesis
    by (simp add: capitalizeFirst_def runes_of_ascii ascii_def)
qed

lemma strings_ToLower_transfer:
  "ascii_compatible U \<Longrightarrow> is_ascii s \<Longrightarrow> strings_ToLower U s = strings_ToLower ascii s"
  by (simp add: ascii_compatible_def)

lemma camel_parts_transfer:
  assumes U: "ascii_compatible U"
  shows "(\<And>p. p \<in> set ps \<Longrightarrow> is_ascii p) \<Longrightarrow> camel_parts U r ps = camel_parts ascii r ps"
proof (induction ps arbitrary: r)
  case Nil
  then show ?case by simp
next
  case (Cons p ps)
  have p: "is_ascii p" using Cons.prems [of p] by simp
  have "capitalizeFirst U (strings_ToLower U p) = capitalizeFirst ascii (strings_ToLower ascii p)"
    using U p
    by (simp add: strings_ToLower_transfer capitalizeFirst_transfer is_ascii_strings_ToLower)
  then show ?case
    using Cons.IH Cons.prems by simp
qed

lemma toCamelCase_transfer:
  assumes U: "ascii_compatible U" and a: "is_ascii s"
  shows "toCamelCase U s = toCamelCase ascii s"
proof (cases s)
  case Nil
  then show ?thesis by (simp add: toCamelCase_def)
next
  case (Cons c cs)
  show ?thesis
  proof (cases "CHR ''_'' \<in> set s")
    case False
    from a Cons have c: "(of_char c :: int) < 128" and cs: "is_ascii cs"
      by (simp_all add: is_ascii_Cons)
    have r: "runes_of U s = of_char c # map of_char cs"
      using U a Cons by (simp add: ascii_compatible_def runes_of_ascii)
    have u: "unicode_ToLower U (of_char c) = ascii_ToLower (of_char c)"
      using U c of_char_int_bounds(1) [of c] by (simp add: ascii_compatible_def)
    have "ascii_runes (ascii_ToLower (of_char c) # map of_char cs)"
      using c cs
      by (simp add: ascii_runes_def is_ascii_def list_all_iff ascii_ToLower_of_char
          of_char_int_bounds)
    then have "string_of U (ascii_ToLower (of_char c) # map of_char cs)
                 = string_of ascii (ascii_ToLower (of_char c) # map of_char cs)"
      using U by (simp add: ascii_compatible_def)
    with r u Cons False show ?thesis
      by (simp add: toCamelCase_def Contains_char runes_of_ascii ascii_def del: Contains.simps)
  next
    case True
    obtain p0 ps where sp: "Split s (CHR ''_'') = p0 # ps"
      using Split_not_Nil [of s "CHR ''_''"] by (cases "Split s (CHR ''_'')") auto
    have parts: "\<And>q. q \<in> set (p0 # ps) \<Longrightarrow> is_ascii q"
      using is_ascii_Split [OF a, of _ "CHR ''_''"] unfolding sp by blast
    have "strings_ToLower U p0 = strings_ToLower ascii p0"
      using U parts [of p0] by (simp add: strings_ToLower_transfer)
    moreover have "camel_parts U r ps = camel_parts ascii r ps" for r
      using parts by (intro camel_parts_transfer [OF U]) auto
    moreover from Cons have "s \<noteq> []" by simp
    ultimately show ?thesis
      using True
      by (simp add: toCamelCase_def Contains_char sp del: Contains.simps Split.simps)
  qed
qed

lemma ascii_compatible_ascii: "ascii_compatible ascii"
  by (simp add: ascii_compatible_def ascii_def)

lemma snake_char_ascii: "snake_char c \<Longrightarrow> (of_char c :: int) < 128"
  by (auto simp: snake_char_def less_eq_char_def of_char_int)

lemma is_snake_case_ascii: "is_snake_case s \<Longrightarrow> is_ascii s"
  by (cases s) (auto simp: is_snake_case_def is_ascii_def list_all_iff snake_char_ascii)

section \<open>Naming helper: camelCase conversion and getter names\<close>

text \<open>
  Claim C8, as amended. Converting a snake_case identifier that does not begin with an
  underscore to camelCase reaches a fixed point: for every such identifier \<open>s\<close>,
  converting the result of the conversion again leaves it unchanged. The library enters
  through what it does on ASCII text.
\<close>

theorem toCamelCase_fixed_point:
  assumes "ascii_compatible U" and "is_snake_case s" and "\<not> HasPrefix s ''_''"
  shows "toCamelCase U (toCamelCase U s) = toCamelCase U s"
proof -
  from assms(2) have a: "is_ascii s" by (rule is_snake_case_ascii)
  from assms(2) obtain c cs where s: "s = c # cs"
    by (cases s) (auto simp: is_snake_case_def)
  with assms(3) have c: "c \<noteq> CHR ''_''" by (auto simp: HasPrefix_def)
  have e: "toCamelCase U s = toCamelCase ascii s"
    using assms(1) a by (rule toCamelCase_transfer)
  have "toCamelCase U (toCamelCase ascii s) = toCamelCase ascii (toCamelCase ascii s)"
    using assms(1) a by (intro toCamelCase_transfer is_ascii_toCamelCase)
  also have "\<dots> = toCamelCase ascii s"
    unfolding s using c by (rule toCamelCase_ascii_idem)
  finally show ?thesis by (simp add: e)
qed

theorem toCamelCase_fixed_point_witness:
  "ascii_compatible ascii \<and> is_snake_case ''user_name'' \<and> \<not> HasPrefix ''user_name'' ''_''
   \<and> toCamelCase ascii ''user_name'' = ''userName''
   \<and> toCamelCase ascii (toCamelCase ascii ''user_name'') = toCamelCase ascii ''user_name''"
proof -
  have h: "is_snake_case ''user_name''" by code_simp
  have p: "\<not> HasPrefix ''user_name'' ''_''" by code_simp
  have v: "toCamelCase ascii ''user_name'' = ''userName''" by code_simp
  show ?thesis
    using h p v ascii_compatible_ascii toCamelCase_fixed_point [OF ascii_compatible_ascii h p]
    by simp
qed

text \<open>
  A snake_case identifier with a leading underscore is not stable: the conversion drops
  the underscore and capitalises the first word, and a second conversion lowers the
  capital.
\<close>

theorem toCamelCase_leading_underscore_counterexample:
  "ascii_compatible ascii \<and> is_snake_case ''_user_name'' \<and> HasPrefix ''_user_name'' ''_''
   \<and> toCamelCase ascii ''_user_name'' = ''UserName''
   \<and> toCamelCase ascii (toCamelCase ascii ''_user_name'') = ''userName''
   \<and> toCamelCase ascii (toCamelCase ascii ''_user_name'') \<noteq> toCamelCase ascii ''_user_name''"
proof -
  have "is_snake_case ''_user_name''" "HasPrefix ''_user_name'' ''_''"
    "toCamelCase ascii ''_user_name'' = ''UserName''"
    "toCamelCase ascii ''UserName'' = ''userName''"
    by code_simp+
  with ascii_compatible_ascii show ?thesis by simp
qed

text \<open>
  Claim C9. The getter of a boolean field is \<^verbatim>\<open>is\<close> followed by the capitalised field
  name exactly when the lowercased field name does not start with \<^verbatim>\<open>is\<close>; a boolean
  field whose name already starts so, and every non-boolean field, gets \<^verbatim>\<open>get\<close>
  followed by the capitalised field name. This holds whatever the case mapping of the
  library is, so also for a field name outside ASCII.
\<close>

theorem GetGetterName_cases:
  "GetGetterName U fieldName isBoolean =
     (if isBoolean \<and> \<not> prefix ''is'' (strings_ToLower U fieldName)
      then ''is'' @ capitalizeFirst U fieldName
      else ''get'' @ capitalizeFirst U fieldName)
   \<and> (GetGetterName U fieldName True = ''is'' @ capitalizeFirst U fieldName
        \<longleftrightarrow> \<not> prefix ''is'' (strings_ToLower U fieldName))
   \<and> GetGetterName U fieldName False = ''get'' @ capitalizeFirst U fieldName"
  by (auto simp: GetGetterName_def Let_def HasPrefix_prefix)

theorem GetGetterName_cases_witness:
  "GetGetterName ascii ''isActive'' True = ''getIsActive''
   \<and> GetGetterName ascii ''active'' True = ''isActive''
   \<and> GetGetterName ascii ''IsOpen'' True = ''getIsOpen''
   \<and> GetGetterName ascii ''active'' False = ''getActive''"
proof -
  have a: "prefix ''is'' (strings_ToLower ascii ''isActive'')"
    "capitalizeFirst ascii ''isActive'' = ''IsActive''"
    by code_simp+
  have b: "\<not> prefix ''is'' (strings_ToLower ascii ''active'')"
    "capitalizeFirst ascii ''active'' = ''Active''"
    by code_simp+
  have c: "prefix ''is'' (strings_ToLower ascii ''IsOpen'')"
    "capitalizeFirst ascii ''IsOpen'' = ''IsOpen''"
    by code_simp+
  show ?thesis
    using a b c GetGetterName_cases [of ascii "''isActive''" True, THEN conjunct1]
      GetGetterName_cases [of ascii "''active''" True, THEN conjunct1]
      GetGetterName_cases [of ascii "''IsOpen''" True, THEN conjunct1]
      GetGetterName_cases [of ascii "''active''" False, THEN conjunct1]
    by simp
qed

section \<open>Structural-boilerplate directive: the facet patch\<close>

lemma map_of_process_excludes:
  "map_of (process_excludes enabled ex) name =
     (if name \<in> set ex then Some False else map_of enabled name)"
  by (induction ex arbitrary: enabled) (auto simp: update_conv')

lemma map_of_process_includes:
  "map_of (process_includes enabled inc) name =
     (if name \<in> set inc then Some True else map_of enabled name)"
  by (induction inc arbitrary: enabled) (auto simp: update_conv')

text \<open>
  Claim C7. The facet patch of the lombok directive starts from the configured per-facet
  booleans, sets every facet of the exclude list to false and then every facet of the
  include list to true; a facet listed in both ends up enabled.
\<close>

theorem getEnabledAnnotations_patch:
  "map_of (getEnabledAnnotations config (Some d)) name =
     (if name \<in> set (Include d) then Some True
      else if name \<in> set (Exclude d) then Some False
      else map_of (lombok_defaults config) name)"
  by (simp add: getEnabledAnnotations_def map_of_process_excludes map_of_process_includes)

theorem getEnabledAnnotations_patch_witness:
  "map_of (getEnabledAnnotations
       \<lparr>lc_Enabled = True, lc_Data = True, lc_Builder = False, lc_NoArgsConstructor = True,
        lc_AllArgsConstructor = False, lc_Getter = False, lc_Setter = False\<rparr>
       (Some \<lparr>Exclude = [''data'', ''builder''], Include = [''builder'']\<rparr>)) ''builder''
     = Some True
   \<and> map_of (getEnabledAnnotations
       \<lparr>lc_Enabled = True, lc_Data = True, lc_Builder = False, lc_NoArgsConstructor = True,
        lc_AllArgsConstructor = False, lc_Getter = False, lc_Setter = False\<rparr>
       (Some \<lparr>Exclude = [''data'', ''builder''], Include = [''builder'']\<rparr>)) ''data''
     = Some False
   \<and> map_of (getEnabledAnnotations
       \<lparr>lc_Enabled = True, lc_Data = True, lc_Builder = False, lc_NoArgsConstructor = True,
        lc_AllArgsConstructor = False, lc_Getter = False, lc_Setter = False\<rparr>
       (Some \<lparr>Exclude = [''data'', ''builder''], Include = [''builder'']\<rparr>)) ''noArgsConstructor''
     = Some True"
  using
    getEnabledAnnotations_patch [of
      "\<lparr>lc_Enabled = True, lc_Data = True, lc_Builder = False, lc_NoArgsConstructor = True,
        lc_AllArgsConstructor = False, lc_Getter = False, lc_Setter = False\<rparr>"
      "\<lparr>Exclude = [''data'', ''builder''], Include = [''builder'']\<rparr>" "''builder''"]
    getEnabledAnnotations_patch [of
      "\<lparr>lc_Enabled = True, lc_Data = True, lc_Builder = False, lc_NoArgsConstructor = True,
        lc_AllArgsConstructor = False, lc_Getter = False, lc_Setter = False\<rparr>"
      "\<lparr>Exclude = [''data'', ''builder''], Include = [''builder'']\<rparr>" "''data''"]
    getEnabledAnnotations_patch [of
      "\<lparr>lc_Enabled = True, lc_Data = True, lc_Builder = False, lc_NoArgsConstructor = True,
        lc_AllArgsConstructor = False, lc_Getter = False, lc_Setter = False\<rparr>"
      "\<lparr>Exclude = [''data'', ''builder''], Include = [''builder'']\<rparr>" "''noArgsConstructor''"]
  by (simp add: lombok_defaults_def)

section \<open>Import accumulator\<close>

lemma im_package_Add [simp]: "im_package (Add m imp) = im_package m"
  by (simp add: Add_def)

lemma im_package_AddAll [simp]: "im_package (AddAll m imps) = im_package m"
  by (induction imps arbitrary: m) auto

lemma im_package_run_calls [simp]: "im_package (run_calls m cs) = im_package m"
proof (induction cs arbitrary: m)
  case Nil
  then show ?case by simp
next
  case (Cons c cs)
  then show ?case by (cases c) auto
qed

lemma Add_new_ok:
  assumes "x \<in> im_imports (Add m imp)" "x \<notin> im_imports m"
  shows "import_ok (im_package m) x"
proof -
  from assms have x: "x = imp" and ne: "imp \<noteq> []"
    and nl: "\<not> (HasPrefix imp ''java.lang.'' \<and> \<not> Contains (drop 10 imp) ''.'')"
    and ns: "\<not> isSamePackage m imp"
    by (auto simp: Add_def split: if_splits)
  have a: "\<not> (\<exists>y. imp = ''java.lang.'' @ y \<and> CHR ''.'' \<notin> set y)"
  proof
    assume "\<exists>y. imp = ''java.lang.'' @ y \<and> CHR ''.'' \<notin> set y"
    then obtain y where y: "imp = ''java.lang.'' @ y" "CHR ''.'' \<notin> set y" by blast
    then have "HasPrefix imp ''java.lang.''" "drop 10 imp = y"
      by (simp_all add: HasPrefix_def)
    with y nl show False by (simp add: Contains_char del: Contains.simps)
  qed
  have b: "\<not> (\<exists>cls. imp = im_package m @ ''.'' @ cls \<and> CHR ''.'' \<notin> set cls)"
    if pk: "im_package m \<noteq> []"
  proof
    assume "\<exists>cls. imp = im_package m @ ''.'' @ cls \<and> CHR ''.'' \<notin> set cls"
    then obtain cls where c: "imp = im_package m @ ''.'' @ cls" "CHR ''.'' \<notin> set cls" by blast
    then have "LastIndex imp (CHR ''.'') = int (length (im_package m))"
      using LastIndex_last_sep [of "CHR ''.''" cls "im_package m"] by simp
    with c pk have "isSamePackage m imp"
      by (simp add: isSamePackage_def)
    with ns show False by simp
  qed
  show ?thesis using x ne a b by (auto simp: import_ok_def)
qed

lemma Add_inv:
  assumes "\<And>x. x \<in> im_imports m \<Longrightarrow> import_ok (im_package m) x"
    and "x \<in> im_imports (Add m imp)"
  shows "import_ok (im_package m) x"
  using assms Add_new_ok by blast

lemma AddAll_inv:
  "(\<And>x. x \<in> im_imports m \<Longrightarrow> import_ok (im_package m) x) \<Longrightarrow>
   x \<in> im_imports (AddAll m imps) \<Longrightarrow> import_ok (im_package m) x"
proof (induction imps arbitrary: m)
  case Nil
  then show ?case by simp
next
  case (Cons imp imps)
  have "import_ok (im_package (Add m imp)) x"
  proof (rule Cons.IH)
    fix y assume "y \<in> im_imports (Add m imp)"
    then show "import_ok (im_package (Add m imp)) y"
      using Add_inv [of m y imp] Cons.prems(1) by simp
  next
    show "x \<in> im_imports (AddAll (Add m imp) imps)" using Cons.prems(2) by simp
  qed
  then show ?case by simp
qed

lemma run_calls_inv:
  "(\<And>x. x \<in> im_imports m \<Longrightarrow> import_ok (im_package m) x) \<Longrightarrow>
   x \<in> im_imports (run_calls m cs) \<Longrightarrow> import_ok (im_package m) x"
proof (induction cs arbitrary: m)
  case Nil
  then show ?case by simp
next
  case (Cons c cs)
  have step: "import_ok (im_package m) y" if "y \<in> im_imports (run_call m c)" for y
  proof (cases c)
    case (CallAdd imp)
    with that Cons.prems(1) show ?thesis using Add_inv [of m y imp] by simp
  next
    case (CallAddAll imps)
    with that Cons.prems(1) show ?thesis using AddAll_inv [of m y imps] by simp
  qed
  have pk: "im_package (run_call m c) = im_package m" by (cases c) auto
  have "import_ok (im_package (run_call m c)) x"
  proof (rule Cons.IH)
    fix y assume "y \<in> im_imports (run_call m c)"
    then show "import_ok (im_package (run_call m c)) y" using step pk by simp
  next
    show "x \<in> im_imports (run_calls (run_call m c) cs)" using Cons.prems(2) by simp
  qed
  then show ?case by (simp add: pk)
qed

lemma finite_Add: "finite (im_imports m) \<Longrightarrow> finite (im_imports (Add m imp))"
  by (simp add: Add_def)

lemma finite_AddAll: "finite (im_imports m) \<Longrightarrow> finite (im_imports (AddAll m imps))"
  by (induction imps arbitrary: m) (auto simp: finite_Add)

lemma finite_run_calls: "finite (im_imports m) \<Longrightarrow> finite (im_imports (run_calls m cs))"
proof (induction cs arbitrary: m)
  case Nil
  then show ?case by simp
next
  case (Cons c cs)
  then show ?case by (cases c) (auto simp: finite_Add finite_AddAll)
qed

lemma group_loop_concat:
  "group_loop groups cur pre xs = (gs, g) \<Longrightarrow> concat gs @ g = concat groups @ cur @ xs"
  by (induction xs arbitrary: groups cur pre) (auto simp: Let_def split: if_splits)

lemma concat_GetGrouped: "concat (GetGrouped m) = GetSorted m"
proof (cases "GetSorted m = []")
  case True
  then show ?thesis by (simp add: GetGrouped_def)
next
  case False
  obtain gs g where gl: "group_loop [] [] [] (GetSorted m) = (gs, g)"
    by (cases "group_loop [] [] [] (GetSorted m)")
  from group_loop_concat [OF gl] have "concat gs @ g = GetSorted m" by simp
  with False gl show ?thesis by (auto simp: GetGrouped_def Let_def)
qed

lemma block_loop_join:
  "n = i + length gs \<Longrightarrow> block_loop i n gs = join_groups gs"
proof (induction gs arbitrary: i rule: join_groups.induct)
  case 1
  then show ?case by simp
next
  case (2 g)
  then show ?case by simp
next
  case (3 g h gs)
  from 3 have "block_loop (Suc i) n (h # gs) = join_groups (h # gs)" by simp
  with 3(2) show ?case by simp
qed

lemma GenerateImportBlock_join: "GenerateImportBlock m = join_groups (GetGrouped m)"
  by (simp add: GenerateImportBlock_def Let_def block_loop_join)


lemma getImportPrefix_not_Nil: "imp \<noteq> [] \<Longrightarrow> getImportPrefix imp \<noteq> []"
proof -
  assume ne: "imp \<noteq> []"
  have three: "(3::nat) = Suc (Suc (Suc 0))" by simp
  show ?thesis
  proof (cases "SplitN imp (CHR ''.'') 3")
    case Nil
    then show ?thesis using SplitN_not_Nil [of imp "CHR ''.''" 2] by (simp add: three)
  next
    case (Cons p0 ps)
    show ?thesis
    proof (cases ps)
      case Nil
      with Cons have "p0 = imp" using SplitN_single [of imp "CHR ''.''" "Suc 0" p0]
        by (simp add: three)
      with Cons Nil ne show ?thesis by (simp add: getImportPrefix_def)
    next
      case (Cons p1 qs)
      with \<open>SplitN imp (CHR ''.'') 3 = p0 # ps\<close> show ?thesis
        by (simp add: getImportPrefix_def)
    qed
  qed
qed

lemma same_prefixI:
  "(\<And>a. a \<in> set g \<Longrightarrow> getImportPrefix a = pre) \<Longrightarrow> same_prefix g"
  unfolding same_prefix_def by simp

lemma group_loop_groups:
  assumes "group_loop groups cur pre xs = (gs, g)"
    and "\<forall>x\<in>set xs. x \<noteq> []"
    and "\<forall>h\<in>set groups. h \<noteq> [] \<and> same_prefix h"
    and "\<forall>a\<in>set cur. getImportPrefix a = pre"
    and "cur \<noteq> [] \<longrightarrow> pre \<noteq> []"
  shows "(\<forall>h\<in>set gs. h \<noteq> [] \<and> same_prefix h) \<and> same_prefix g"
  using assms
proof (induction xs arbitrary: groups cur pre)
  case Nil
  from Nil.prems(1) have eq: "gs = groups" "g = cur" by simp_all
  have "same_prefix cur" using Nil.prems(4) same_prefixI [of cur pre] by blast
  with Nil.prems(3) show ?case unfolding eq by blast
next
  case (Cons imp rest)
  let ?p = "getImportPrefix imp"
  have pne: "?p \<noteq> []" using Cons.prems(2) by (simp add: getImportPrefix_not_Nil)
  have cur_ok: "same_prefix cur" using Cons.prems(4) same_prefixI [of cur pre] by blast
  show ?case
  proof (cases "pre \<noteq> [] \<and> ?p \<noteq> pre")
    case True
    have gl:
      "group_loop (if cur \<noteq> [] then groups @ [cur] else groups) [imp] ?p rest = (gs, g)"
      using Cons.prems(1) True by (simp add: Let_def)
    show ?thesis
    proof (rule Cons.IH [OF gl])
      show "\<forall>x\<in>set rest. x \<noteq> []" using Cons.prems(2) by simp
      show "\<forall>h\<in>set (if cur \<noteq> [] then groups @ [cur] else groups). h \<noteq> [] \<and> same_prefix h"
        using Cons.prems(3) cur_ok by simp
      show "\<forall>a\<in>set [imp]. getImportPrefix a = ?p" by simp
      show "[imp] \<noteq> [] \<longrightarrow> ?p \<noteq> []" using pne by simp
    qed
  next
    case False
    have gl: "group_loop groups (cur @ [imp]) ?p rest = (gs, g)"
      using Cons.prems(1) False by (simp add: Let_def del: group_loop.simps add: group_loop.simps(2))
    from False Cons.prems(5) have "cur = [] \<or> ?p = pre" by blast
    then have all: "\<forall>a\<in>set (cur @ [imp]). getImportPrefix a = ?p"
      using Cons.prems(4) by auto
    show ?thesis
    proof (rule Cons.IH [OF gl])
      show "\<forall>x\<in>set rest. x \<noteq> []" using Cons.prems(2) by simp
      show "\<forall>h\<in>set groups. h \<noteq> [] \<and> same_prefix h" using Cons.prems(3) .
      show "\<forall>a\<in>set (cur @ [imp]). getImportPrefix a = ?p" using all .
      show "cur @ [imp] \<noteq> [] \<longrightarrow> ?p \<noteq> []" using pne by simp
    qed
  qed
qed

lemma GetGrouped_groups:
  assumes "finite (im_imports m)" "\<forall>x\<in>im_imports m. x \<noteq> []"
  shows "\<forall>h\<in>set (GetGrouped m). h \<noteq> [] \<and> same_prefix h"
proof (cases "GetSorted m = []")
  case True
  then show ?thesis by (simp add: GetGrouped_def)
next
  case False
  obtain gs g where gl: "group_loop [] [] [] (GetSorted m) = (gs, g)"
    by (cases "group_loop [] [] [] (GetSorted m)")
  have "\<forall>x\<in>set (GetSorted m). x \<noteq> []"
    using assms by (simp add: GetSorted_def)
  then have "(\<forall>h\<in>set gs. h \<noteq> [] \<and> same_prefix h) \<and> same_prefix g"
    by (intro group_loop_groups [OF gl]) auto
  with False gl show ?thesis by (auto simp: GetGrouped_def Let_def)
qed

lemma accumulated_ok: "x \<in> im_imports (accumulated pkg calls) \<Longrightarrow> import_ok pkg x"
  unfolding accumulated_def
  using run_calls_inv [of "NewImportManager pkg" x calls]
  by (simp add: NewImportManager_def)

lemma accumulated_finite: "finite (im_imports (accumulated pkg calls))"
  unfolding accumulated_def by (rule finite_run_calls) (simp add: NewImportManager_def)

text \<open>
  Claim C10, as amended. After any sequence of Add and AddAll calls on a fresh accumulator,
  the accumulated set holds no empty import and no direct \<^verbatim>\<open>java.lang\<close> type import
  and, when the configured output package is not empty, no import of a type directly in
  that package; the generated import block is the import lines of the groups with one
  blank line between groups, the groups taken together are the sorted list of the set,
  each import once, and every group is non-empty with one common two-segment prefix.
\<close>

theorem import_accumulator_invariant:
  "(\<forall>imp\<in>im_imports (accumulated pkg calls).
      imp \<noteq> [] \<and>
      \<not> (\<exists>x. imp = ''java.lang.'' @ x \<and> CHR ''.'' \<notin> set x) \<and>
      (pkg \<noteq> [] \<longrightarrow> \<not> (\<exists>cls. imp = pkg @ ''.'' @ cls \<and> CHR ''.'' \<notin> set cls)))
   \<and> GenerateImportBlock (accumulated pkg calls) = join_groups (GetGrouped (accumulated pkg calls))
   \<and> concat (GetGrouped (accumulated pkg calls)) = GetSorted (accumulated pkg calls)
   \<and> sorted (GetSorted (accumulated pkg calls))
   \<and> distinct (GetSorted (accumulated pkg calls))
   \<and> set (GetSorted (accumulated pkg calls)) = im_imports (accumulated pkg calls)
   \<and> (\<forall>g\<in>set (GetGrouped (accumulated pkg calls)). g \<noteq> [] \<and> same_prefix g)"
proof -
  let ?m = "accumulated pkg calls"
  have fin: "finite (im_imports ?m)" by (rule accumulated_finite)
  have ok: "\<forall>imp\<in>im_imports ?m. import_ok pkg imp" using accumulated_ok by blast
  have ne: "\<forall>x\<in>im_imports ?m. x \<noteq> []" using ok by (auto simp: import_ok_def)
  have s: "sorted (GetSorted ?m)" "distinct (GetSorted ?m)" "set (GetSorted ?m) = im_imports ?m"
    using fin by (simp_all add: GetSorted_def)
  show ?thesis
    using ok s GenerateImportBlock_join [of ?m] concat_GetGrouped [of ?m]
      GetGrouped_groups [OF fin ne]
    unfolding import_ok_def by blast
qed

theorem import_accumulator_invariant_witness:
  "im_imports (accumulated ''com.x''
      [CallAdd ''java.util.List'',
       CallAddAll [''java.lang.String'', ''com.x.Foo'', ''a.b.C'', ''java.util.List'']])
     = {''a.b.C'', ''java.util.List''}
   \<and> ''com.x'' \<noteq> []
   \<and> \<not> (\<exists>cls. ''a.b.C'' = ''com.x'' @ ''.'' @ cls \<and> CHR ''.'' \<notin> set cls)
   \<and> \<not> (\<exists>x. ''a.b.C'' = ''java.lang.'' @ x \<and> CHR ''.'' \<notin> set x)
   \<and> GenerateImportBlock (accumulated ''com.x''
      [CallAdd ''java.util.List'',
       CallAddAll [''java.lang.String'', ''com.x.Foo'', ''a.b.C'', ''java.util.List'']])
     = ''import a.b.C;\<newline>\<newline>import java.util.List;\<newline>''
   \<and> sorted (GetSorted (accumulated ''com.x''
      [CallAdd ''java.util.List'',
       CallAddAll [''java.lang.String'', ''com.x.Foo'', ''a.b.C'', ''java.util.List'']]))"
proof -
  let ?m = "accumulated ''com.x''
      [CallAdd ''java.util.List'',
       CallAddAll [''java.lang.String'', ''com.x.Foo'', ''a.b.C'', ''java.util.List'']]"
  note t = import_accumulator_invariant [of "''com.x''"
      "[CallAdd ''java.util.List'',
        CallAddAll [''java.lang.String'', ''com.x.Foo'', ''a.b.C'', ''java.util.List'']]"]
  have a: "im_imports ?m = {''a.b.C'', ''java.util.List''}" by code_simp
  then have mem: "''a.b.C'' \<in> im_imports ?m" by simp
  have ne: "''com.x'' \<noteq> []" by simp
  note el = t [THEN conjunct1, THEN bspec, OF mem]
  have p: "\<not> (\<exists>cls. ''a.b.C'' = ''com.x'' @ ''.'' @ cls \<and> CHR ''.'' \<notin> set cls)"
    by (rule el [THEN conjunct2, THEN conjunct2, THEN mp, OF ne])
  have l: "\<not> (\<exists>x. ''a.b.C'' = ''java.lang.'' @ x \<and> CHR ''.'' \<notin> set x)"
    by (rule el [THEN conjunct2, THEN conjunct1])
  have b: "GenerateImportBlock ?m = ''import a.b.C;\<newline>\<newline>import java.util.List;\<newline>''"
    by code_simp
  have c: "sorted (GetSorted ?m)"
    by (rule t [THEN conjunct2, THEN conjunct2, THEN conjunct2, THEN conjunct1])
  show ?thesis using a ne p l b c by (intro conjI)
qed

text \<open>
  For the empty output package the same-package test is switched off: the import
  \<^verbatim>\<open>.Foo\<close>, whose package part is the empty string and so equals the output
  package, is kept.
\<close>

theorem import_same_package_counterexample:
  "''.Foo'' \<in> im_imports (accumulated [] [CallAdd ''.Foo''])
   \<and> ''.Foo'' = [] @ ''.'' @ ''Foo'' \<and> CHR ''.'' \<notin> set ''Foo''"
  by (simp add: accumulated_def NewImportManager_def Add_def HasPrefix_def isSamePackage_def)

section \<open>Type mapper\<close>

lemma mapper_fields [simp]:
  "tm_config (mapper cfg types) = cfg"
  "tm_builtinScalars (mapper cfg types) = BuiltinScalars"
  "tm_schemaTypes (mapper cfg types) = types"
  "tm_customScalars (mapper cfg types) name =
     map_option (\<lambda>m. scalar (sm_JavaType m) [] (sm_Imports m)) (cf_TypeMappings_Scalars cfg name)"
  by (simp_all add: mapper_def SetSchemaTypes_def NewTypeMapper_def split: option.splits)

lemma scalar_fields [simp]:
  "si_JavaType (scalar j p i) = j" "si_PrimitiveType (scalar j p i) = p"
  "si_Imports (scalar j p i) = i"
  by (simp_all add: scalar_def)

lemma result_of_fields [simp]:
  "mr_JavaType (result_of j i p) = j" "mr_Imports (result_of j i p) = i"
  "mr_IsPrimitive (result_of j i p) = p" "mr_IsCollection (result_of j i p) = False"
  "mr_IsOptional (result_of j i p) = False" "mr_ElementType (result_of j i p) = []"
  by (simp_all add: result_of_def)

lemma BuiltinScalars_primitive:
  "BuiltinScalars name = Some s \<Longrightarrow> si_PrimitiveType s \<noteq> [] \<Longrightarrow>
   name \<in> {''Int'', ''Float'', ''Boolean''}"
  by (auto simp: BuiltinScalars_def split: if_splits)

lemma BuiltinScalars_names:
  "BuiltinScalars name \<noteq> None \<longleftrightarrow> name \<in> {''String'', ''Int'', ''Float'', ''Boolean'', ''ID''}"
  by (auto simp: BuiltinScalars_def)

lemma IsPrimitive_iff:
  "IsPrimitive t \<longleftrightarrow>
     t \<in> {''int'', ''long'', ''short'', ''byte'', ''float'', ''double'', ''boolean'', ''char''}"
  by (auto simp: IsPrimitive_def PrimitiveToBoxed_def split: if_splits)

lemma not_IsPrimitive_Optional: "\<not> IsPrimitive (FormatOptionalType t)"
  by (simp add: IsPrimitive_iff FormatOptionalType_def)

lemma mapNamedType_order:
  "mapNamedType (mapper cfg types) name =
     Inr (case cf_TypeMappings_Scalars cfg name of
            Some m \<Rightarrow> result_of (sm_JavaType m) (sm_Imports m) False
          | None \<Rightarrow>
         (case BuiltinScalars name of
            Some s \<Rightarrow> result_of (si_JavaType s) (si_Imports s) False
          | None \<Rightarrow>
         (case CommonScalars name of
            Some s \<Rightarrow> result_of (si_JavaType s) (si_Imports s) False
          | None \<Rightarrow>
         (case types name of
            Some typeDef \<Rightarrow> result_of (getJavaTypeName (mapper cfg types) typeDef) [] False
          | None \<Rightarrow> result_of name [] False))))"
  by (simp add: mapNamedType_def split: option.splits)

lemma mapNamedType_override:
  "cf_TypeMappings_Scalars cfg name = Some m \<Longrightarrow>
   mapNamedType (mapper cfg types) name = Inr (result_of (sm_JavaType m) (sm_Imports m) False)"
  by (simp add: mapNamedType_order)

lemma applyNullability_not_primitive:
  "\<not> mr_IsPrimitive r \<Longrightarrow>
   applyNullability tm r =
     (if jc_NullableHandling (cf_Java (tm_config tm)) = ''optional''
      then r\<lparr>mr_JavaType := FormatOptionalType (mr_JavaType r),
              mr_Imports := mr_Imports r @ [''java.util.Optional''],
              mr_IsOptional := True, mr_IsPrimitive := False\<rparr>
      else r)"
  by (simp add: applyNullability_def Let_def OptionalInfo_Imports_def)

text \<open>
  Claim C2, as amended. A named reference is resolved in the fixed order: configuration
  override, built-in scalar table, common scalar table, schema registry, pass-through.
  When an override exists for the name, a top-level nullable reference has the override's
  type and imports under the wrapper and annotation policies, and under the optional
  policy the boxed override type wrapped in \<^verbatim>\<open>Optional<...>\<close> with the Optional import
  appended; a top-level non-null reference has the override's type and imports when the
  name is not one of \<^verbatim>\<open>Int\<close>, \<^verbatim>\<open>Float\<close>, \<^verbatim>\<open>Boolean\<close>.
\<close>

theorem override_resolution:
  "mapNamedType (mapper cfg types) name =
     Inr (case cf_TypeMappings_Scalars cfg name of
            Some m \<Rightarrow> result_of (sm_JavaType m) (sm_Imports m) False
          | None \<Rightarrow>
         (case BuiltinScalars name of
            Some s \<Rightarrow> result_of (si_JavaType s) (si_Imports s) False
          | None \<Rightarrow>
         (case CommonScalars name of
            Some s \<Rightarrow> result_of (si_JavaType s) (si_Imports s) False
          | None \<Rightarrow>
         (case types name of
            Some typeDef \<Rightarrow> result_of (getJavaTypeName (mapper cfg types) typeDef) [] False
          | None \<Rightarrow> result_of name [] False))))
   \<and> (cf_TypeMappings_Scalars cfg name = Some m \<longrightarrow>
        (\<exists>r. mapTypeInternal (mapper cfg types) (named name False) True = Inr r
           \<and> (if jc_NullableHandling (cf_Java cfg) = ''optional''
               then mr_JavaType r = ''Optional<'' @ BoxType (sm_JavaType m) @ ''>''
                    \<and> mr_Imports r = sm_Imports m @ [''java.util.Optional'']
               else mr_JavaType r = sm_JavaType m \<and> mr_Imports r = sm_Imports m))
      \<and> (name \<notin> {''Int'', ''Float'', ''Boolean''} \<longrightarrow>
           (\<exists>r. mapTypeInternal (mapper cfg types) (named name True) True = Inr r
              \<and> mr_JavaType r = sm_JavaType m \<and> mr_Imports r = sm_Imports m)))"
proof (intro conjI impI)
  show "mapNamedType (mapper cfg types) name =
     Inr (case cf_TypeMappings_Scalars cfg name of
            Some m \<Rightarrow> result_of (sm_JavaType m) (sm_Imports m) False
          | None \<Rightarrow>
         (case BuiltinScalars name of
            Some s \<Rightarrow> result_of (si_JavaType s) (si_Imports s) False
          | None \<Rightarrow>
         (case CommonScalars name of
            Some s \<Rightarrow> result_of (si_JavaType s) (si_Imports s) False
          | None \<Rightarrow>
         (case types name of
            Some typeDef \<Rightarrow> result_of (getJavaTypeName (mapper cfg types) typeDef) [] False
          | None \<Rightarrow> result_of name [] False))))"
    by (rule mapNamedType_order)
next
  assume ov: "cf_TypeMappings_Scalars cfg name = Some m"
  show "\<exists>r. mapTypeInternal (mapper cfg types) (named name False) True = Inr r
           \<and> (if jc_NullableHandling (cf_Java cfg) = ''optional''
               then mr_JavaType r = ''Optional<'' @ BoxType (sm_JavaType m) @ ''>''
                    \<and> mr_Imports r = sm_Imports m @ [''java.util.Optional'']
               else mr_JavaType r = sm_JavaType m \<and> mr_Imports r = sm_Imports m)"
    by (simp add: named_def mapNamedType_override [OF ov] applyNullability_not_primitive
        FormatOptionalType_def Let_def)
next
  assume ov: "cf_TypeMappings_Scalars cfg name = Some m"
    and nb: "name \<notin> {''Int'', ''Float'', ''Boolean''}"
  have "si_PrimitiveType s = []" if "BuiltinScalars name = Some s" for s
    using BuiltinScalars_primitive [OF that] nb by blast
  then show "\<exists>r. mapTypeInternal (mapper cfg types) (named name True) True = Inr r
              \<and> mr_JavaType r = sm_JavaType m \<and> mr_Imports r = sm_Imports m"
    by (auto simp: named_def mapNamedType_override [OF ov] Let_def split: option.splits)
qed


theorem override_resolution_witness:
  "cf_TypeMappings_Scalars
      (config_with ''optional''
         [''DateTime'' \<mapsto> \<lparr>sm_JavaType = ''java.time.LocalDateTime'',
                          sm_Imports = [''java.time.LocalDateTime'']\<rparr>]) ''DateTime''
     = Some \<lparr>sm_JavaType = ''java.time.LocalDateTime'', sm_Imports = [''java.time.LocalDateTime'']\<rparr>
   \<and> ''DateTime'' \<notin> {''Int'', ''Float'', ''Boolean''}
   \<and> (\<exists>r. mapTypeInternal
          (mapper (config_with ''optional''
             [''DateTime'' \<mapsto> \<lparr>sm_JavaType = ''java.time.LocalDateTime'',
                              sm_Imports = [''java.time.LocalDateTime'']\<rparr>]) Map.empty)
          (named ''DateTime'' True) True = Inr r
        \<and> mr_JavaType r = ''java.time.LocalDateTime''
        \<and> mr_Imports r = [''java.time.LocalDateTime''])
   \<and> (\<exists>r. mapTypeInternal
          (mapper (config_with ''optional''
             [''DateTime'' \<mapsto> \<lparr>sm_JavaType = ''java.time.LocalDateTime'',
                              sm_Imports = [''java.time.LocalDateTime'']\<rparr>]) Map.empty)
          (named ''DateTime'' False) True = Inr r
        \<and> mr_JavaType r = ''Optional<java.time.LocalDateTime>''
        \<and> mr_Imports r = [''java.time.LocalDateTime'', ''java.util.Optional''])"
proof -
  let ?m = "\<lparr>sm_JavaType = ''java.time.LocalDateTime'', sm_Imports = [''java.time.LocalDateTime'']\<rparr>"
  let ?cfg = "config_with ''optional'' [''DateTime'' \<mapsto> ?m]"
  have h: "cf_TypeMappings_Scalars ?cfg ''DateTime'' = Some ?m"
    by (simp add: config_with_def)
  have n: "''DateTime'' \<notin> {''Int'', ''Float'', ''Boolean''}" by simp
  have p: "jc_NullableHandling (cf_Java ?cfg) = ''optional''"
    by (simp add: config_with_def)
  have b: "BoxType ''java.time.LocalDateTime'' = ''java.time.LocalDateTime''"
    by (simp add: BoxType_def PrimitiveToBoxed_def)
  note t = override_resolution [of ?cfg Map.empty "''DateTime''" ?m, THEN conjunct2, THEN mp, OF h]
  from t [THEN conjunct2, THEN mp, OF n] t [THEN conjunct1] h n p b
  show ?thesis by simp
qed

text \<open>
  With an override of \<^verbatim>\<open>Int\<close> by \<^verbatim>\<open>Long\<close>: under the optional policy the nullable
  reference is wrapped and gains an import; the non-null reference takes the built-in
  primitive and the override is lost.
\<close>

theorem override_resolution_counterexample:
  "cf_TypeMappings_Scalars
      (config_with ''optional'' [''Int'' \<mapsto> \<lparr>sm_JavaType = ''Long'', sm_Imports = []\<rparr>]) ''Int''
     = Some \<lparr>sm_JavaType = ''Long'', sm_Imports = []\<rparr>
   \<and> mapTypeInternal
        (mapper (config_with ''optional'' [''Int'' \<mapsto> \<lparr>sm_JavaType = ''Long'', sm_Imports = []\<rparr>])
           Map.empty)
        (named ''Int'' False) True
     = Inr \<lparr>mr_JavaType = ''Optional<Long>'', mr_Imports = [''java.util.Optional''],
            mr_IsPrimitive = False, mr_IsCollection = False, mr_IsOptional = True,
            mr_ElementType = []\<rparr>
   \<and> mapTypeInternal
        (mapper (config_with ''wrapper'' [''Int'' \<mapsto> \<lparr>sm_JavaType = ''Long'', sm_Imports = []\<rparr>])
           Map.empty)
        (named ''Int'' True) True
     = Inr \<lparr>mr_JavaType = ''int'', mr_Imports = [],
            mr_IsPrimitive = True, mr_IsCollection = False, mr_IsOptional = False,
            mr_ElementType = []\<rparr>"
  by (simp add: config_with_def named_def mapNamedType_def mapper_def SetSchemaTypes_def
      NewTypeMapper_def scalar_def result_of_def applyNullability_def Let_def
      FormatOptionalType_def BoxType_def PrimitiveToBoxed_def OptionalInfo_Imports_def
      BuiltinScalars_def DefaultConfig_def)

text \<open>
  Claim C3, as amended. A top-level non-null reference to a built-in scalar with a
  primitive form (\<^verbatim>\<open>Int\<close>, \<^verbatim>\<open>Float\<close>, \<^verbatim>\<open>Boolean\<close>) maps to that primitive, flagged
  primitive. A non-null reference to a common scalar with a primitive form
  (\<^verbatim>\<open>Long\<close>, \<^verbatim>\<open>Short\<close>, \<^verbatim>\<open>Byte\<close>, \<^verbatim>\<open>Char\<close>), when not overridden, maps to the
  wrapper type and is not flagged primitive.
\<close>

theorem nonnull_builtin_primitive:
  "(BuiltinScalars name = Some s \<and> si_PrimitiveType s \<noteq> [] \<longrightarrow>
      (\<exists>r. mapTypeInternal (mapper cfg types) (named name True) True = Inr r
         \<and> mr_JavaType r = si_PrimitiveType s \<and> mr_IsPrimitive r
         \<and> IsPrimitive (mr_JavaType r)))
   \<and> (name \<in> {''Long'', ''Short'', ''Byte'', ''Char''}
        \<and> cf_TypeMappings_Scalars cfg name = None \<longrightarrow>
      (\<exists>r s. mapTypeInternal (mapper cfg types) (named name True) True = Inr r
         \<and> CommonScalars name = Some s \<and> si_PrimitiveType s \<noteq> []
         \<and> mr_JavaType r = si_JavaType s \<and> \<not> mr_IsPrimitive r
         \<and> \<not> IsPrimitive (mr_JavaType r)))"
proof (intro conjI impI)
  assume a: "BuiltinScalars name = Some s \<and> si_PrimitiveType s \<noteq> []"
  then have "name \<in> {''Int'', ''Float'', ''Boolean''}"
    using BuiltinScalars_primitive by blast
  with a have "IsPrimitive (si_PrimitiveType s)"
    by (auto simp: BuiltinScalars_def IsPrimitive_iff)
  with a show "\<exists>r. mapTypeInternal (mapper cfg types) (named name True) True = Inr r
         \<and> mr_JavaType r = si_PrimitiveType s \<and> mr_IsPrimitive r
         \<and> IsPrimitive (mr_JavaType r)"
    by (simp add: named_def mapNamedType_order Let_def)
next
  assume a: "name \<in> {''Long'', ''Short'', ''Byte'', ''Char''}
        \<and> cf_TypeMappings_Scalars cfg name = None"
  then have nb: "BuiltinScalars name = None"
    by (auto simp: BuiltinScalars_def)
  from a obtain s where s: "CommonScalars name = Some s" "si_PrimitiveType s \<noteq> []"
    "\<not> IsPrimitive (si_JavaType s)"
    by (auto simp: CommonScalars_def IsPrimitive_iff)
  with a nb show "\<exists>r s. mapTypeInternal (mapper cfg types) (named name True) True = Inr r
         \<and> CommonScalars name = Some s \<and> si_PrimitiveType s \<noteq> []
         \<and> mr_JavaType r = si_JavaType s \<and> \<not> mr_IsPrimitive r
         \<and> \<not> IsPrimitive (mr_JavaType r)"
    by (simp add: named_def mapNamedType_order Let_def)
qed

theorem nonnull_builtin_primitive_witness:
  "BuiltinScalars ''Int'' = Some (scalar ''Integer'' ''int'' [])
   \<and> si_PrimitiveType (scalar ''Integer'' ''int'' []) \<noteq> []
   \<and> (\<exists>r. mapTypeInternal (mapper DefaultConfig Map.empty) (named ''Int'' True) True = Inr r
         \<and> mr_JavaType r = ''int'' \<and> mr_IsPrimitive r)
   \<and> ''Short'' \<in> {''Long'', ''Short'', ''Byte'', ''Char''}
   \<and> cf_TypeMappings_Scalars DefaultConfig ''Short'' = None
   \<and> (\<exists>r. mapTypeInternal (mapper DefaultConfig Map.empty) (named ''Short'' True) True = Inr r
         \<and> mr_JavaType r = ''Short'' \<and> \<not> mr_IsPrimitive r)"
proof -
  have h: "BuiltinScalars ''Int'' = Some (scalar ''Integer'' ''int'' [])
           \<and> si_PrimitiveType (scalar ''Integer'' ''int'' []) \<noteq> []"
    by (simp add: BuiltinScalars_def)
  have k: "''Short'' \<in> {''Long'', ''Short'', ''Byte'', ''Char''}
           \<and> cf_TypeMappings_Scalars DefaultConfig ''Short'' = None"
    by (simp add: DefaultConfig_def)
  have c: "CommonScalars ''Short'' = Some (scalar ''Short'' ''short'' [])"
    by (simp add: CommonScalars_def)
  from nonnull_builtin_primitive [of "''Int''" "scalar ''Integer'' ''int'' []" DefaultConfig Map.empty,
      THEN conjunct1, THEN mp, OF h]
    nonnull_builtin_primitive [of "''Short''" _ DefaultConfig Map.empty,
      THEN conjunct2, THEN mp, OF k] h k c
  show ?thesis by auto
qed

text \<open>
  \<^verbatim>\<open>Long\<close> is a common scalar with the primitive form \<^verbatim>\<open>long\<close>; a non-null
  reference to it maps to the wrapper, not flagged primitive.
\<close>

theorem nonnull_common_scalar_counterexample:
  "CommonScalars ''Long'' = Some (scalar ''Long'' ''long'' [])
   \<and> mapTypeInternal (mapper DefaultConfig Map.empty) (named ''Long'' True) True
     = Inr \<lparr>mr_JavaType = ''Long'', mr_Imports = [],
            mr_IsPrimitive = False, mr_IsCollection = False, mr_IsOptional = False,
            mr_ElementType = []\<rparr>"
  by (simp add: named_def mapNamedType_def mapper_def SetSchemaTypes_def
      NewTypeMapper_def scalar_def result_of_def Let_def CommonScalars_def
      BuiltinScalars_def DefaultConfig_def)

lemma BoxType_not_primitive: "\<not> IsPrimitive (BoxType t)"
  by (auto simp: BoxType_def PrimitiveToBoxed_def IsPrimitive_iff split: if_splits)




section \<open>The mapper and the generators return no error\<close>

lemma mapNamedType_Inr: "\<exists>r. mapNamedType tm name = Inr r"
  by (simp add: mapNamedType_def split: option.splits)

lemma mapTypeInternal_Inr: "\<exists>r. mapTypeInternal tm t topLevel = Inr r"
proof (induction tm t topLevel rule: mapTypeInternal.induct)
  case (1 tm name elem nonNull topLevel)
  then obtain r where "mapTypeInternal tm elem False = Inr r" by blast
  then show ?case by (simp add: Let_def)
next
  case (2 tm name nonNull topLevel)
  obtain r where "mapNamedType tm name = Inr r" using mapNamedType_Inr by blast
  then show ?case by (simp add: Let_def)
qed

lemma MapType_Inr: "\<exists>r. MapType tm t = Inr r"
  using mapTypeInternal_Inr by (cases t) (auto simp: MapType_def)

lemma MapFieldType_Inr: "\<exists>r. MapFieldType tm field = Inr r"
proof -
  obtain r where "MapType tm (fd_Type field) = Inr r" using MapType_Inr by blast
  then show ?thesis
    by (simp add: MapFieldType_def Let_def split: option.splits)
qed

lemma NewFieldContext_Inr:
  "\<exists>fc. NewFieldContext tc field = Inr fc \<and> fc_Field fc = field"
proof -
  obtain r where "MapFieldType (ctx_TypeMapper (tc_Context tc)) field = Inr r"
    using MapFieldType_Inr by blast
  then show ?thesis by (simp add: NewFieldContext_def Let_def)
qed

lemma class_fields_loop_Inr: "\<exists>r. class_fields_loop typeDef fs st = Inr r"
proof (induction fs arbitrary: st)
  case Nil
  then show ?case by (cases st) simp
next
  case (Cons field rest)
  obtain sb tc fcs where st: "st = (sb, tc, fcs)" by (cases st)
  obtain fc where fc: "NewFieldContext tc field = Inr fc"
    using NewFieldContext_Inr by blast
  show ?case
  proof (cases "Field_ShouldSkip fc")
    case True
    with fc st Cons.IH show ?thesis by simp
  next
    case False
    obtain code tc1 where "GenerateField tc fc = (code, tc1)" by (cases "GenerateField tc fc")
    with False fc st Cons.IH show ?thesis by simp
  qed
qed

lemma GenerateInterfaceMethod_Inr: "\<exists>r. GenerateInterfaceMethod tc field = Inr r"
proof -
  obtain fc where "NewFieldContext tc field = Inr fc"
    using NewFieldContext_Inr by blast
  then show ?thesis by (simp add: GenerateInterfaceMethod_def Let_def)
qed

lemma interface_methods_loop_Inr: "\<exists>r. interface_methods_loop typeDef fs st = Inr r"
proof (induction fs arbitrary: st)
  case Nil
  then show ?case by (cases st) simp
next
  case (Cons field rest)
  obtain sb tc where st: "st = (sb, tc)" by (cases st)
  obtain code tc1 where "GenerateInterfaceMethod tc field = Inr (code, tc1)"
    using GenerateInterfaceMethod_Inr [of tc field] by auto
  with st Cons.IH show ?case by simp
qed

lemma splice_imports_not_Nil: "sb \<noteq> [] \<Longrightarrow> splice_imports sb p m \<noteq> []"
proof -
  assume "sb \<noteq> []"
  then have "take p sb @ drop p sb \<noteq> []" by simp
  then show ?thesis by (auto simp: splice_imports_def Let_def)
qed

lemma Class_Generate_result:
  "\<exists>content. Class_Generate ctx typeDef = Inr content
     \<and> (content = [] \<longleftrightarrow> ExtractSkipDirective (td_Directives typeDef) \<noteq> None)"
proof (cases "ExtractSkipDirective (td_Directives typeDef) \<noteq> None")
  case True
  then show ?thesis
    by (simp add: Class_Generate_def Type_ShouldSkip_def NewTypeContext_def)
next
  case False
  obtain anns tc1 where a: "generateClassAnnotations (NewTypeContext ctx typeDef) = (anns, tc1)"
    by (cases "generateClassAnnotations (NewTypeContext ctx typeDef)")
  let ?sb1 = "''package '' @ cf_Output_Package (ctx_Config ctx) @ '';\<newline>\<newline>''
                  @ (if td_Description typeDef \<noteq> []
                     then generateJavadoc (td_Description typeDef) [] else [])
                  @ write_annotations [] anns
                  @ ''public class '' @ tc_TypeName tc1
                  @ (if 0 < length (td_Interfaces typeDef)
                     then '' implements ''
                          @ interfaces_loop 0
                              (nc_InterfacePrefix (jc_Naming (cf_Java (ctx_Config ctx))))
                              (td_Interfaces typeDef)
                     else [])
                  @ '' {\<newline>\<newline>''"
  obtain sb2 tc2 fcs where l: "class_fields_loop typeDef (td_Fields typeDef) (?sb1, tc1, []) = Inr (sb2, tc2, fcs)"
    using class_fields_loop_Inr [of typeDef "td_Fields typeDef" "(?sb1, tc1, [])"]
    by (metis prod_cases3)
  have "splice_imports (sb2 @ (if NeedsGettersSetters (cf_Features_Lombok (ctx_Config ctx))
                                \<and> 0 < length fcs
                             then accessors fcs else []) @ ''}\<newline>'') p m \<noteq> []" for p m
    by (rule splice_imports_not_Nil) simp
  with False a l show ?thesis
    by (simp add: Class_Generate_def Type_ShouldSkip_def NewTypeContext_def Let_def)
qed


lemma Interface_Generate_result:
  "\<exists>content. Interface_Generate ctx typeDef = Inr content
     \<and> (content = [] \<longleftrightarrow> ExtractSkipDirective (td_Directives typeDef) \<noteq> None)"
proof (cases "ExtractSkipDirective (td_Directives typeDef) \<noteq> None")
  case True
  then show ?thesis
    by (simp add: Interface_Generate_def Type_ShouldSkip_def NewTypeContext_def)
next
  case False
  obtain anns tc1 where
    a: "generateInterfaceAnnotations (NewTypeContext ctx typeDef) = (anns, tc1)"
    by (cases "generateInterfaceAnnotations (NewTypeContext ctx typeDef)")
  let ?sb1 = "''package '' @ cf_Output_Package (ctx_Config ctx) @ '';\<newline>\<newline>''
                  @ (if td_Description typeDef \<noteq> []
                     then generateJavadoc (td_Description typeDef) [] else [])
                  @ write_annotations [] anns
                  @ ''public interface '' @ tc_TypeName tc1
                  @ (if 0 < length (td_Interfaces typeDef)
                     then '' extends ''
                          @ interfaces_loop 0
                              (nc_InterfacePrefix (jc_Naming (cf_Java (ctx_Config ctx))))
                              (td_Interfaces typeDef)
                     else [])
                  @ '' {\<newline>\<newline>''"
  obtain sb2 tc2 where
    l: "interface_methods_loop typeDef (td_Fields typeDef) (?sb1, tc1) = Inr (sb2, tc2)"
    using interface_methods_loop_Inr [of typeDef "td_Fields typeDef" "(?sb1, tc1)"]
    by (metis surj_pair)
  have "splice_imports (sb2 @ ''}\<newline>'') p m \<noteq> []" for p m
    by (rule splice_imports_not_Nil) simp
  with False a l show ?thesis
    by (simp add: Interface_Generate_def Type_ShouldSkip_def NewTypeContext_def Let_def)
qed

lemma Enum_Generate_result:
  "\<exists>content. Enum_Generate ctx typeDef = Inr content
     \<and> (content = [] \<longleftrightarrow> ExtractSkipDirective (td_Directives typeDef) \<noteq> None)"
proof (cases "ExtractSkipDirective (td_Directives typeDef) \<noteq> None")
  case True
  then show ?thesis
    by (simp add: Enum_Generate_def Type_ShouldSkip_def NewTypeContext_def)
next
  case False
  have "splice_imports (sb2 @ ''}\<newline>'') p m \<noteq> []" for sb2 p m
    by (rule splice_imports_not_Nil) simp
  with False show ?thesis
    by (simp add: Enum_Generate_def Type_ShouldSkip_def NewTypeContext_def Let_def
        split: prod.splits)
qed

lemma Union_Generate_result:
  "\<exists>content. Union_Generate ctx typeDef = Inr content
     \<and> (content = [] \<longleftrightarrow> ExtractSkipDirective (td_Directives typeDef) \<noteq> None)"
  by (simp add: Union_Generate_def Type_ShouldSkip_def NewTypeContext_def Let_def)

lemma generateType_result:
  "generateType ctx typeDef = Inr (produced (generateType ctx) typeDef)
   \<and> (produced (generateType ctx) typeDef \<noteq> None \<longleftrightarrow> generated_kind typeDef)
   \<and> (\<forall>file. produced (generateType ctx) typeDef = Some file \<longrightarrow> gf_TypeDef file = typeDef)"
proof (cases "td_Kind typeDef")
  case TypeKindObject
  with Class_Generate_result [of ctx typeDef] show ?thesis
    by (auto simp: generateType_def produced_def generated_kind_def Let_def)
next
  case TypeKindInterface
  with Interface_Generate_result [of ctx typeDef] show ?thesis
    by (auto simp: generateType_def produced_def generated_kind_def Let_def)
next
  case TypeKindInputObject
  with Class_Generate_result [of ctx typeDef] show ?thesis
    by (auto simp: generateType_def produced_def generated_kind_def Let_def)
next
  case TypeKindEnum
  with Enum_Generate_result [of ctx typeDef] show ?thesis
    by (auto simp: generateType_def produced_def generated_kind_def Let_def)
next
  case TypeKindUnion
  with Union_Generate_result [of ctx typeDef] show ?thesis
    by (auto simp: generateType_def produced_def generated_kind_def Let_def)
next
  case TypeKindScalar
  then show ?thesis
    by (simp add: generateType_def produced_def generated_kind_def Let_def)
qed

lemma failed_None: "failed (generateType ctx) typeDef = None"
  using generateType_result [of ctx typeDef] by (simp add: failed_def)

lemma generate_loop_eq:
  "generate_loop gen ts (files, errs) =
     (files @ List.map_filter (produced gen) ts, errs @ List.map_filter (failed gen) ts)"
proof (induction ts arbitrary: files errs)
  case Nil
  then show ?case by (simp add: List.map_filter_simps)
next
  case (Cons t ts)
  show ?case
  proof (cases "gen t")
    case (Inl err)
    with Cons.IH show ?thesis
      by (simp add: List.map_filter_simps produced_def failed_def)
  next
    case (Inr r)
    with Cons.IH show ?thesis
      by (cases r) (simp_all add: List.map_filter_simps produced_def failed_def)
  qed
qed

lemma map_filter_failed: "List.map_filter (failed (generateType ctx)) ts = []"
  by (induction ts) (simp_all add: List.map_filter_simps failed_None)

lemma map_filter_produced:
  "map gf_TypeDef (List.map_filter (produced (generateType ctx)) ts) = filter generated_kind ts"
proof (induction ts)
  case Nil
  then show ?case by (simp add: List.map_filter_simps)
next
  case (Cons t ts)
  show ?case
  proof (cases "produced (generateType ctx) t")
    case None
    with generateType_result [of ctx t] Cons.IH show ?thesis
      by (simp add: List.map_filter_simps)
  next
    case (Some gf)
    with generateType_result [of ctx t] Cons.IH show ?thesis
      by (simp add: List.map_filter_simps)
  qed
qed

text \<open>
  With the generator's own mapper no type reference makes the mapper return an error, so
  no per-type generation fails: a run over any schema collects no error and yields one
  unit for every type that is neither a scalar nor skipped.
\<close>

lemma Generate_collects_no_error:
  "(\<exists>r. MapType (ctx_TypeMapper (NewContext config schema)) typeRef = Inr r)
   \<and> snd (GenerateWithResult config schema) = []
   \<and> Generate config schema = (fst (GenerateWithResult config schema), None)
   \<and> map gf_TypeDef (fst (GenerateWithResult config schema))
       = filter generated_kind (map snd (sc_Types schema))"
proof -
  let ?ctx = "NewContext config schema"
  let ?ts = "map snd (sc_Types schema)"
  have g: "GenerateWithResult config schema =
             (List.map_filter (produced (generateType ?ctx)) ?ts,
              List.map_filter (failed (generateType ?ctx)) ?ts)"
    by (simp add: GenerateWithResult_def generate_loop_eq)
  have e: "List.map_filter (failed (generateType ?ctx)) ?ts = []" by (rule map_filter_failed)
  have "Generate config schema = (List.map_filter (produced (generateType ?ctx)) ?ts, None)"
    by (simp add: Generate_def Let_def generate_loop_eq e ToError_def)
  with g e MapType_Inr [of "ctx_TypeMapper ?ctx" typeRef] map_filter_produced [of ?ctx ?ts]
  show ?thesis by simp
qed

section \<open>Partial failure of a run\<close>

lemma map_filter_produced_all:
  "(\<And>t. t \<in> set ts \<Longrightarrow> \<exists>u. gen t = Inr (Some u)) \<Longrightarrow>
   map (\<lambda>u. Inr (Some u)) (List.map_filter (produced gen) ts) = map gen ts
   \<and> List.map_filter (failed gen) ts = []"
proof (induction ts)
  case Nil
  then show ?case by (simp add: List.map_filter_simps)
next
  case (Cons t ts)
  from Cons.prems [of t] obtain u where u: "gen t = Inr (Some u)" by auto
  then have pu: "produced gen t = Some u" "failed gen t = None"
    by (simp_all add: produced_def failed_def)
  from Cons.IH Cons.prems
  have "map (\<lambda>u. Inr (Some u)) (List.map_filter (produced gen) ts) = map gen ts
        \<and> List.map_filter (failed gen) ts = []"
    by simp
  with u pu show ?case
    by (simp add: List.map_filter_simps)
qed

lemma map_filter_append:
  "List.map_filter f (xs @ ys) = List.map_filter f xs @ List.map_filter f ys"
  by (simp add: List.map_filter_def)



section \<open>Skipped types and skipped fields\<close>

lemma add_imports_same:
  "same_state tc tc2 \<Longrightarrow> same_state (add_imports tc imps) (add_imports tc2 imps)"
  by (simp add: same_state_def add_imports_def)

lemma add_imports_TypeName [simp]: "tc_TypeName (add_imports tc imps) = tc_TypeName tc"
  by (simp add: add_imports_def)

lemma add_imports_TypeDef [simp]: "tc_TypeDef (add_imports tc imps) = tc_TypeDef tc"
  by (simp add: add_imports_def)

lemma add_imports_Context [simp]: "tc_Context (add_imports tc imps) = tc_Context tc"
  by (simp add: add_imports_def)

lemma generateFieldAnnotations_same:
  assumes "same_state tc tc2"
  shows "fst (generateFieldAnnotations tc fc) = fst (generateFieldAnnotations tc2 fc)
         \<and> same_state (snd (generateFieldAnnotations tc fc))
                       (snd (generateFieldAnnotations tc2 fc))"
proof -
  have c: "tc_Context tc = tc_Context tc2" using assms by (simp add: same_state_def)
  show ?thesis
    using assms
    by (simp add: generateFieldAnnotations_def Let_def c add_imports_same)
qed

lemma generateFieldAnnotations_Context [simp]:
  "tc_Context (snd (generateFieldAnnotations tc fc)) = tc_Context tc"
  by (simp add: generateFieldAnnotations_def Let_def)

lemma GetVisibility_same:
  "tc_Context tc = tc_Context tc2 \<Longrightarrow> GetVisibility tc = GetVisibility tc2"
  by (simp add: GetVisibility_def)

lemma GenerateField_same:
  assumes "same_state tc tc2"
  shows "fst (GenerateField tc fc) = fst (GenerateField tc2 fc)
         \<and> same_state (snd (GenerateField tc fc)) (snd (GenerateField tc2 fc))"
proof -
  have s: "same_state (add_imports tc (fc_Imports fc)) (add_imports tc2 (fc_Imports fc))"
    using assms by (rule add_imports_same)
  obtain anns t where a: "generateFieldAnnotations (add_imports tc (fc_Imports fc)) fc = (anns, t)"
    by (cases "generateFieldAnnotations (add_imports tc (fc_Imports fc)) fc")
  obtain anns2 t2 where
    a2: "generateFieldAnnotations (add_imports tc2 (fc_Imports fc)) fc = (anns2, t2)"
    by (cases "generateFieldAnnotations (add_imports tc2 (fc_Imports fc)) fc")
  from generateFieldAnnotations_same [OF s, of fc] a a2
  have e: "anns2 = anns" and st: "same_state t t2" by simp_all
  from st have "tc_Context t = tc_Context t2" by (simp add: same_state_def)
  then have v: "GetVisibility t = GetVisibility t2" by (rule GetVisibility_same)
  show ?thesis
    by (simp add: GenerateField_def Let_def a a2 e st v)
qed

lemma NewFieldContext_same:
  "tc_Context tc = tc_Context tc2 \<Longrightarrow> NewFieldContext tc f = NewFieldContext tc2 f"
  by (simp add: NewFieldContext_def)

lemma class_fields_loop_same:
  assumes "class_fields_loop td fs (sb, tc, fcs) = Inr (sb', tc', fcs')"
    and "same_state tc tc2"
  shows "\<exists>tc2'. class_fields_loop td2 fs (sb, tc2, fcs) = Inr (sb', tc2', fcs')
                \<and> same_state tc' tc2'"
  using assms
proof (induction fs arbitrary: sb tc tc2 fcs)
  case Nil
  then show ?case by simp
next
  case (Cons f fs)
  have c: "tc_Context tc = tc_Context tc2" using Cons.prems(2) by (simp add: same_state_def)
  obtain fc where fc: "NewFieldContext tc f = Inr fc"
    using NewFieldContext_Inr by blast
  then have fc2: "NewFieldContext tc2 f = Inr fc"
    using NewFieldContext_same [OF c, of f] by simp
  show ?case
  proof (cases "Field_ShouldSkip fc")
    case True
    with Cons.prems(1) fc have "class_fields_loop td fs (sb, tc, fcs) = Inr (sb', tc', fcs')"
      by simp
    from Cons.IH [OF this Cons.prems(2)] True fc2 show ?thesis by simp
  next
    case False
    obtain code tc1 where g: "GenerateField tc fc = (code, tc1)"
      by (cases "GenerateField tc fc")
    obtain code2 tc12 where g2: "GenerateField tc2 fc = (code2, tc12)"
      by (cases "GenerateField tc2 fc")
    from GenerateField_same [OF Cons.prems(2), of fc] g g2
    have eq: "code2 = code" and s: "same_state tc1 tc12" by simp_all
    from Cons.prems(1) fc False g
    have "class_fields_loop td fs (sb @ code @ ''\<newline>'', tc1, fcs @ [fc]) = Inr (sb', tc', fcs')"
      by simp
    from Cons.IH [OF this s] False fc2 g2 eq show ?thesis by simp
  qed
qed

lemma class_fields_loop_filter:
  "class_fields_loop td
     (filter (\<lambda>f. ExtractSkipDirective (fd_Directives f) = None) fs) st
   = class_fields_loop td fs st"
proof (induction fs arbitrary: st)
  case Nil
  then show ?case by simp
next
  case (Cons f fs)
  obtain sb tc fcs where st: "st = (sb, tc, fcs)" by (cases st)
  obtain fc where fc: "NewFieldContext tc f = Inr fc" "fc_Field fc = f"
    using NewFieldContext_Inr by blast
  show ?case
  proof (cases "ExtractSkipDirective (fd_Directives f) = None")
    case True
    with st fc Cons.IH show ?thesis
      by (simp split: prod.splits)
  next
    case False
    with fc have "Field_ShouldSkip fc" by (simp add: Field_ShouldSkip_def)
    with False st fc Cons.IH show ?thesis by simp
  qed
qed

lemma generateClassAnnotations_same:
  assumes "same_state tc tc2"
    and "td_Directives (tc_TypeDef tc) = td_Directives (tc_TypeDef tc2)"
    and "tc_TypeName tc = tc_TypeName tc2"
  shows "fst (generateClassAnnotations tc) = fst (generateClassAnnotations tc2)
         \<and> same_state (snd (generateClassAnnotations tc)) (snd (generateClassAnnotations tc2))
         \<and> tc_TypeName (snd (generateClassAnnotations tc))
             = tc_TypeName (snd (generateClassAnnotations tc2))"
proof -
  have c: "tc_Context tc = tc_Context tc2" using assms(1) by (simp add: same_state_def)
  show ?thesis
    using assms
    by (simp add: generateClassAnnotations_def Let_def c add_imports_same
        Lombok_GenerateTypeAnnotations_def Validation_GenerateTypeAnnotations_def)
qed

lemma without_skipped_fields_simps [simp]:
  "td_Name (without_skipped_fields td) = td_Name td"
  "td_Kind (without_skipped_fields td) = td_Kind td"
  "td_Description (without_skipped_fields td) = td_Description td"
  "td_Directives (without_skipped_fields td) = td_Directives td"
  "td_Interfaces (without_skipped_fields td) = td_Interfaces td"
  "td_EnumValues (without_skipped_fields td) = td_EnumValues td"
  "td_Fields (without_skipped_fields td)
     = filter (\<lambda>f. ExtractSkipDirective (fd_Directives f) = None) (td_Fields td)"
  by (simp_all add: without_skipped_fields_def)

lemma GetTypeName_without_skipped_fields [simp]:
  "GetTypeName naming (without_skipped_fields td) = GetTypeName naming td"
  by (simp add: GetTypeName_def Let_def split: option.splits TypeKind.splits)

lemma Class_Generate_unfold:
  assumes "ExtractSkipDirective (td_Directives td) = None"
    and "generateClassAnnotations (NewTypeContext ctx td) = (anns, tc1)"
  shows "Class_Generate ctx td =
           (case class_fields_loop td (td_Fields td)
                   (class_header ctx td anns (tc_TypeName tc1), tc1, []) of
              Inl err \<Rightarrow> Inl err
            | Inr (sb2, tc2, fcs) \<Rightarrow> Inr (class_footer ctx sb2 (tc_Imports tc2) fcs))"
  using assms
  by (simp add: Class_Generate_def Type_ShouldSkip_def NewTypeContext_def Let_def
      class_header_def class_footer_def split: sum.splits prod.splits)

lemma class_header_without_skipped_fields [simp]:
  "class_header ctx (without_skipped_fields td) anns name = class_header ctx td anns name"
  by (simp add: class_header_def)

lemma Class_Generate_without_skipped_fields:
  "Class_Generate ctx (without_skipped_fields td) = Class_Generate ctx td"
proof (cases "ExtractSkipDirective (td_Directives td) \<noteq> None")
  case True
  then show ?thesis
    by (simp add: Class_Generate_def Type_ShouldSkip_def NewTypeContext_def)
next
  case False
  then have ns: "ExtractSkipDirective (td_Directives td) = None" by simp
  let ?td' = "without_skipped_fields td"
  let ?tc = "NewTypeContext ctx td" and ?tc' = "NewTypeContext ctx ?td'"
  have ns': "ExtractSkipDirective (td_Directives ?td') = None" using ns by simp
  have n: "tc_TypeName ?tc = tc_TypeName ?tc'"
    by (simp add: NewTypeContext_def)
  have s0: "same_state ?tc ?tc'" by (simp add: same_state_def NewTypeContext_def)
  have d0: "td_Directives (tc_TypeDef ?tc) = td_Directives (tc_TypeDef ?tc')"
    by (simp add: NewTypeContext_def)
  obtain anns tc1 where a: "generateClassAnnotations ?tc = (anns, tc1)"
    by (cases "generateClassAnnotations ?tc")
  obtain anns' tc1' where a': "generateClassAnnotations ?tc' = (anns', tc1')"
    by (cases "generateClassAnnotations ?tc'")
  from generateClassAnnotations_same [OF s0 d0 n] a a'
  have an: "anns' = anns" and s1: "same_state tc1 tc1'" and n1: "tc_TypeName tc1' = tc_TypeName tc1"
    by simp_all
  let ?h = "class_header ctx td anns (tc_TypeName tc1)"
  obtain sb2 tc2 fcs where
    l: "class_fields_loop td (td_Fields td) (?h, tc1, []) = Inr (sb2, tc2, fcs)"
    using class_fields_loop_Inr [of td "td_Fields td" "(?h, tc1, [])"]
    by (metis prod_cases3)
  from class_fields_loop_same [OF l s1, of ?td']
  obtain tc2' where
    l': "class_fields_loop ?td' (td_Fields td) (?h, tc1', []) = Inr (sb2, tc2', fcs)"
    and s2: "same_state tc2 tc2'"
    by blast
  have l'': "class_fields_loop ?td' (td_Fields ?td') (?h, tc1', []) = Inr (sb2, tc2', fcs)"
    using l' by (simp add: class_fields_loop_filter)
  have i: "tc_Imports tc2' = tc_Imports tc2" using s2 by (simp add: same_state_def)
  have lhs: "Class_Generate ctx td = Inr (class_footer ctx sb2 (tc_Imports tc2) fcs)"
    by (simp add: Class_Generate_unfold [OF ns a] l)
  have "Class_Generate ctx ?td' =
           (case class_fields_loop ?td' (td_Fields ?td')
                   (class_header ctx ?td' anns' (tc_TypeName tc1'), tc1', []) of
              Inl err \<Rightarrow> Inl err
            | Inr (sb2, tc2, fcs) \<Rightarrow> Inr (class_footer ctx sb2 (tc_Imports tc2) fcs))"
    by (rule Class_Generate_unfold [OF ns' a'])
  also have "class_header ctx ?td' anns' (tc_TypeName tc1') = ?h"
    by (simp add: an n1)
  finally have rhs: "Class_Generate ctx ?td' = Inr (class_footer ctx sb2 (tc_Imports tc2') fcs)"
    by (simp add: l'' del: without_skipped_fields_simps)
  show ?thesis by (simp add: lhs rhs i)
qed



section \<open>Enum bodies\<close>

text \<open>
  Claim C1. Every skipped enum value is absent from the emitted body, and the last
  retained value is followed by the semicolon. The code decides between comma and
  semicolon by the index of the value among all declared values: with the skipped value in
  the middle (first equation) the body is as claimed; with the skipped value declared
  last (second equation) every retained value is followed by a comma and no semicolon is
  written.
\<close>

theorem enum_trailing_skip_output:
  "Enum_Generate (NewContext DefaultConfig (schema_of []))
     (enum_type ''Status''
        [enum_value ''ACTIVE'' [], enum_value ''PENDING'' [skip_directive],
         enum_value ''INACTIVE'' []])
   = Inr ''package com.example.model;\<newline>\<newline>public enum Status {\<newline>    ACTIVE,\<newline>    INACTIVE;\<newline>}\<newline>''
   \<and> Enum_Generate (NewContext DefaultConfig (schema_of []))
     (enum_type ''Status''
        [enum_value ''ACTIVE'' [], enum_value ''INACTIVE'' [],
         enum_value ''PENDING'' [skip_directive]])
   = Inr ''package com.example.model;\<newline>\<newline>public enum Status {\<newline>    ACTIVE,\<newline>    INACTIVE,\<newline>}\<newline>''"
  by code_simp

end
